theory Spec2Isabelle
  imports Complex_Main "HOL-Library.Sublist" "HOL-Library.Log_Nat" "HOL-Library.Multiset"
begin

section \<open>Strings and numbers of the source language\<close>

text \<open>
  The services are JavaScript. Strings are modelled as \<open>string\<close>, one \<open>char\<close> per
  UTF-16 code unit below 256 (the Latin-1 range). Writes to the store (\<open>save\<close>) and
  reads from it are modelled as never throwing, except the two article queries of the
  retriever.

  Numbers are IEEE 754 doubles. A finite double is a rational number, so a number is
  modelled as the \<open>rat\<close> it denotes, and every arithmetic operation of the source
  (\<open>+\<close>, \<open>-\<close>, \<open>*\<close>, \<open>/\<close>) is the exact operation followed by \<open>double\<close>, the rounding
  to the nearest number with a 53-bit significand, ties to the even significand. A
  decimal literal such as \<open>0.2\<close> denotes \<open>double (2 / 10)\<close>. Comparisons, \<open>Math.min\<close>,
  \<open>Math.max\<close> and \<open>Math.round\<close> are exact on doubles. The exponent range is not
  bounded in the model: it has no overflow to \<open>Infinity\<close> and no subnormal numbers,
  which the classifier cannot reach on any string the language can hold (its values lie
  between \<open>2^-60\<close> and the length of the text), and which the retriever reaches only on
  articles whose text score or vote counts are themselves at the ends of the range.
\<close>

type_synonym objectId = string

definition toLowerChar :: "char \<Rightarrow> char" where
  \<comment> \<open>\<open>String.prototype.toLowerCase\<close> on one Latin-1 code unit: A-Z and the accented
      capitals 0xC0-0xDE (without the multiplication sign 0xD7) move up by 32.\<close>
  "toLowerChar c =
     (let n = (of_char c :: nat)
      in if (65 \<le> n \<and> n \<le> 90) \<or> (192 \<le> n \<and> n \<le> 222 \<and> n \<noteq> 215)
         then char_of (n + 32) else c)"

definition toLowerCase :: "string \<Rightarrow> string" where
  "toLowerCase s = map toLowerChar s"

fun countOcc :: "string \<Rightarrow> string \<Rightarrow> nat" where
  \<comment> \<open>Number of matches of a global regular expression that is a plain non-empty
      literal: scan from the left, and continue behind each match.\<close>
  "countOcc kw [] = 0"
| "countOcc kw (c # cs) =
     (if prefix kw (c # cs) then Suc (countOcc kw (drop (length kw - 1) cs))
      else countOcc kw cs)"

definition matchCount :: "string \<Rightarrow> string \<Rightarrow> nat" where
  \<comment> \<open>\<open>(text.match(new RegExp(keyword, 'g')) || []).length\<close> for a keyword without
      regular-expression metacharacters; the empty pattern matches at every position.\<close>
  "matchCount text kw = (if kw = [] then Suc (length text) else countOcc kw text)"

definition exponentOf :: "rat \<Rightarrow> int" where
  \<comment> \<open>the binary exponent of a number other than zero: the \<open>e\<close> with
      \<open>2^e \<le> |x| < 2^(e+1)\<close>, found from the bit lengths of numerator and denominator\<close>
  "exponentOf x =
     (case quotient_of \<bar>x\<bar> of (a, b) \<Rightarrow>
        let k = bitlen a - bitlen b in if 2 powi k \<le> \<bar>x\<bar> then k else k - 1)"

definition roundHalfEven :: "rat \<Rightarrow> int" where
  \<comment> \<open>the nearest integer, a tie to the even one\<close>
  "roundHalfEven q =
     (let f = \<lfloor>q\<rfloor>; r = q - of_int f
      in if r < 1 / 2 then f else if r > 1 / 2 then f + 1 else if even f then f else f + 1)"

definition double :: "rat \<Rightarrow> rat" where
  \<comment> \<open>round to nearest, ties to even, with a significand of 53 bits: the result of
      an arithmetic operation whose exact value is \<open>x\<close>\<close>
  "double x =
     (if x = 0 then 0
      else let e = exponentOf x - 52
           in sgn x * of_int (roundHalfEven (\<bar>x\<bar> / 2 powi e)) * 2 powi e)"

definition mathRound :: "rat \<Rightarrow> int" where
  \<comment> \<open>\<open>Math.round\<close>: the nearest integer, halves towards plus infinity.\<close>
  "mathRound x = \<lfloor>x + 1 / 2\<rfloor>"

definition round2 :: "rat \<Rightarrow> rat" where
  \<comment> \<open>\<open>Math.round(x * 100) / 100\<close>\<close>
  "round2 x = double (of_int (mathRound (double (x * 100))) / 100)"

section \<open>Classifier (llmService, stub mode)\<close>

datatype category = Billing | Tech | Shipping | Other

record classification =
  predictedCategory :: category
  confidence :: rat

definition categoryKeys :: "category list" where
  \<comment> \<open>\<open>Object.keys\<close> of the \<open>keywords\<close> and \<open>scores\<close> objects: insertion order.\<close>
  "categoryKeys = [Billing, Tech, Shipping, Other]"

fun keywordTable :: "category \<Rightarrow> string list" where
  "keywordTable Billing = [''refund'', ''invoice'', ''payment'', ''charge'', ''billing'',
                       ''credit'', ''money'', ''price'', ''cost'', ''fee'']"
| "keywordTable Tech = [''error'', ''bug'', ''crash'', ''broken'', ''technical'', ''code'',
                    ''stack'', ''login'', ''password'', ''api'']"
| "keywordTable Shipping = [''delivery'', ''shipment'', ''package'', ''shipping'', ''tracking'',
                        ''arrived'', ''delayed'', ''address'']"
| "keywordTable Other = [''general'', ''question'', ''help'', ''support'', ''information'',
                     ''contact'']"

fun initialScores :: "category \<Rightarrow> rat" where
  "initialScores Billing = 0"
| "initialScores Tech = 0"
| "initialScores Shipping = 0"
| "initialScores Other = double (1 / 10)"

definition addKeyword :: "string \<Rightarrow> category \<Rightarrow> (category \<Rightarrow> rat) \<Rightarrow> string \<Rightarrow> (category \<Rightarrow> rat)" where
  \<comment> \<open>\<open>scores[category] += matches * 0.2\<close>\<close>
  "addKeyword lowerText cat scores kw =
     scores(cat := double (scores cat + double (of_nat (matchCount lowerText kw) * double (2 / 10))))"

definition addCategory :: "string \<Rightarrow> (category \<Rightarrow> rat) \<Rightarrow> category \<Rightarrow> (category \<Rightarrow> rat)" where
  \<comment> \<open>the inner loop over the keywords of one category\<close>
  "addCategory lowerText scores cat = foldl (addKeyword lowerText cat) scores (keywordTable cat)"

definition computeScores :: "string \<Rightarrow> (category \<Rightarrow> rat)" where
  \<comment> \<open>the outer loop over \<open>Object.entries(keywords)\<close>\<close>
  "computeScores lowerText = foldl (addCategory lowerText) initialScores categoryKeys"

definition pickHigher :: "(category \<Rightarrow> rat) \<Rightarrow> category \<Rightarrow> category \<Rightarrow> category" where
  \<comment> \<open>the reducer \<open>(a, b) => scores[a] > scores[b] ? a : b\<close>\<close>
  "pickHigher scores a b = (if scores a > scores b then a else b)"

definition reduceKeys :: "(category \<Rightarrow> rat) \<Rightarrow> category list \<Rightarrow> category option" where
  \<comment> \<open>\<open>Array.prototype.reduce\<close> without an initial value; it throws on an empty array.\<close>
  "reduceKeys scores ks = (case ks of [] \<Rightarrow> None | k # rest \<Rightarrow> Some (foldl (pickHigher scores) k rest))"

definition sortDesc :: "rat list \<Rightarrow> rat list" where
  \<comment> \<open>\<open>sort((a, b) => b - a)\<close>\<close>
  "sortDesc xs = sort_key (\<lambda>x. - x) xs"

definition rawConfidence :: "(category \<Rightarrow> rat) \<Rightarrow> rat" where
  \<comment> \<open>\<open>Math.min(0.95, Math.max(0.3, (s[0] - s[1]) / (s[0] + 0.1)))\<close> on the scores
      sorted in descending order\<close>
  "rawConfidence scores =
     (let sortedScores = sortDesc (map scores categoryKeys)
      in min (double (95 / 100)) (max (double (3 / 10))
           (double (double (sortedScores ! 0 - sortedScores ! 1)
                      / double (sortedScores ! 0 + double (1 / 10))))))"

definition stubClassify :: "string \<Rightarrow> classification option" where
  \<comment> \<open>\<open>_stubClassify\<close>; \<open>None\<close> stands for the TypeError of \<open>reduce\<close> on no keys.\<close>
  "stubClassify text =
     (let scores = computeScores (toLowerCase text)
      in case reduceKeys scores categoryKeys of
           None \<Rightarrow> None
         | Some cat \<Rightarrow>
             Some \<lparr> predictedCategory = cat, confidence = round2 (rawConfidence scores) \<rparr>)"

datatype error =
    TicketNotFound
  | SuggestionNotFound
  | ClassificationUnavailable
  | KnowledgeBaseUnavailable
  | DraftUnavailable

fun errorMessage :: "error \<Rightarrow> string" where
  "errorMessage TicketNotFound = ''Ticket not found''"
| "errorMessage SuggestionNotFound = ''Suggestion not found''"
| "errorMessage ClassificationUnavailable = ''Classification service unavailable''"
| "errorMessage KnowledgeBaseUnavailable = ''Knowledge base search unavailable''"
| "errorMessage DraftUnavailable = ''Draft generation service unavailable''"

definition classify :: "bool \<Rightarrow> string \<Rightarrow> error + classification" where
  \<comment> \<open>\<open>classify\<close>: the stub in stub mode; otherwise \<open>_realClassify\<close> throws, and every
      throw inside the \<open>try\<close> is replaced by 'Classification service unavailable'.\<close>
  "classify stubMode ticketText =
     (if stubMode
      then (case stubClassify ticketText of
              None \<Rightarrow> Inl ClassificationUnavailable
            | Some c \<Rightarrow> Inr c)
      else Inl ClassificationUnavailable)"

section \<open>Knowledge retriever (kbService)\<close>

datatype articleStatus = DraftArticle | Published

text \<open>
  An article as the retriever sees it: a lean document of the Article collection. The
  fields \<open>a_score\<close> (the text score added by the aggregation) and
  \<open>a_relevanceScore\<close> (added by \<open>_scoreArticles\<close>) are absent (\<open>None\<close>) until they
  are set. The prefix \<open>a_\<close> keeps the field names apart from the ticket's.
\<close>

record article =
  a_id :: objectId
  a_title :: string
  a_body :: string
  a_tags :: "string list option"
  a_status :: articleStatus
  a_helpful :: "rat option"
  a_notHelpful :: "rat option"
  a_score :: "rat option"
  a_relevanceScore :: "rat option"

definition isWordChar :: "char \<Rightarrow> bool" where
  \<comment> \<open>the class \<open>\w\<close>: ASCII letters, digits and the underscore\<close>
  "isWordChar c =
     (let n = (of_char c :: nat)
      in (48 \<le> n \<and> n \<le> 57) \<or> (65 \<le> n \<and> n \<le> 90) \<or> n = 95 \<or> (97 \<le> n \<and> n \<le> 122))"

definition isSpaceChar :: "char \<Rightarrow> bool" where
  \<comment> \<open>the class \<open>\s\<close> below 256: tab, line feed, vertical tab, form feed, carriage
      return, space and the no-break space\<close>
  "isSpaceChar c = ((of_char c :: nat) \<in> {9, 10, 11, 12, 13, 32, 160})"

definition stripPunctuation :: "string \<Rightarrow> string" where
  \<comment> \<open>\<open>replace(/[^\w\s]/g, ' ')\<close>\<close>
  "stripPunctuation s = map (\<lambda>c. if isWordChar c \<or> isSpaceChar c then c else CHR '' '') s"

function splitSpaces :: "string \<Rightarrow> string \<Rightarrow> string list" where
  \<comment> \<open>\<open>split(/\s+/)\<close>, with the word read so far as first argument\<close>
  "splitSpaces cur [] = [cur]"
| "splitSpaces cur (c # cs) =
     (if isSpaceChar c then cur # splitSpaces [] (dropWhile isSpaceChar cs)
      else splitSpaces (cur @ [c]) cs)"
  by pat_completeness auto
termination
  by (relation "measure (\<lambda>(cur, s). length s)") (auto simp: length_dropWhile_le less_Suc_eq_le)

definition stopWords :: "string list" where
  "stopWords =
     [''the'', ''a'', ''an'', ''and'', ''or'', ''but'', ''in'', ''on'', ''at'', ''to'', ''for'',
      ''of'', ''with'', ''by'', ''is'', ''are'', ''was'', ''were'', ''be'', ''been'', ''being'',
      ''have'', ''has'', ''had'', ''do'', ''does'', ''did'', ''will'', ''would'', ''could'',
      ''should'', ''may'', ''might'', ''must'', ''can'', ''this'', ''that'', ''these'', ''those'']"

definition extractKeywords :: "string \<Rightarrow> string list" where
  "extractKeywords query =
     take 10 (filter (\<lambda>word. length word > 2 \<and> word \<notin> set stopWords)
                (splitSpaces [] (stripPunctuation (toLowerCase query))))"

definition countMatches :: "string \<Rightarrow> string list \<Rightarrow> nat" where
  \<comment> \<open>\<open>_countMatches\<close>: an empty text counts nothing\<close>
  "countMatches text kws =
     (if text = [] then 0
      else foldl (\<lambda>count keyword. count + matchCount (toLowerCase text) keyword) 0 kws)"

definition tagMatches :: "string list option \<Rightarrow> string list \<Rightarrow> nat" where
  \<comment> \<open>\<open>article.tags ? keywords.filter(k => article.tags.includes(k.toLowerCase())).length : 0\<close>\<close>
  "tagMatches tgs kws =
     (case tgs of None \<Rightarrow> 0
      | Some ts \<Rightarrow> length (filter (\<lambda>k. toLowerCase k \<in> set ts) kws))"

definition orZero :: "rat option \<Rightarrow> rat" where
  \<comment> \<open>\<open>x || 0\<close> on a number that may be absent\<close>
  "orZero x = (case x of None \<Rightarrow> 0 | Some v \<Rightarrow> v)"

definition compositeScore :: "string list \<Rightarrow> article \<Rightarrow> rat" where
  \<comment> \<open>the value of \<open>score\<close> in \<open>_scoreArticles\<close> before it is rounded to two
      decimals: the text score, then one \<open>+=\<close> or \<open>-=\<close> after the other\<close>
  "compositeScore kws a =
     (let score0 = orZero (a_score a);
          score1 = double (score0 + double (of_nat (countMatches (a_title a) kws) * 3));
          score2 = double (score1 + double (of_nat (countMatches (a_body a) kws) * 1));
          score3 = double (score2 + double (of_nat (tagMatches (a_tags a) kws) * 2));
          score4 = double (score3 + double (orZero (a_helpful a) * double (1 / 10)))
      in double (score4 - double (orZero (a_notHelpful a) * double (5 / 100))))"

definition scoreArticle :: "string list \<Rightarrow> article \<Rightarrow> article" where
  \<comment> \<open>\<open>{...article, relevanceScore: Math.round(score * 100) / 100}\<close>\<close>
  "scoreArticle kws a = a\<lparr>a_relevanceScore := Some (round2 (compositeScore kws a))\<rparr>"

definition scoreArticles :: "article list \<Rightarrow> string \<Rightarrow> article list" where
  \<comment> \<open>\<open>_scoreArticles\<close>: score every article, then the stable
      \<open>sort((a, b) => b.relevanceScore - a.relevanceScore)\<close>\<close>
  "scoreArticles articles query =
     sort_key (\<lambda>a. - orZero (a_relevanceScore a))
       (map (scoreArticle (extractKeywords query)) articles)"

text \<open>
  The two queries against the Article collection are the store's own (the aggregation
  of \<open>_textSearch\<close>, a MongoDB text search, and the \<open>find\<close> of \<open>_keywordSearch\<close>
  with regular expressions built from \<open>_extractKeywords(query)\<close>); they are parameters
  of the model, with the arguments the service passes (the keyword query receives the
  extracted keywords). \<open>None\<close> is a query that throws.
\<close>

record articleStore =
  textSearch :: "string \<Rightarrow> nat \<Rightarrow> articleStatus \<Rightarrow> category option \<Rightarrow> article list option"
  keywordSearch :: "string list \<Rightarrow> nat \<Rightarrow> articleStatus \<Rightarrow> category option \<Rightarrow> article list option"

definition searchArticles ::
  "articleStore \<Rightarrow> string \<Rightarrow> nat \<Rightarrow> category option \<Rightarrow> articleStatus \<Rightarrow> error + article list" where
  \<comment> \<open>\<open>searchArticles(query, {limit, category, status})\<close>; every throw inside the
      \<open>try\<close> becomes 'Knowledge base search unavailable'\<close>
  "searchArticles db query limit cat status =
     (case textSearch db query limit status cat of
        None \<Rightarrow> Inl KnowledgeBaseUnavailable
      | Some found \<Rightarrow>
          if length found < limit
          then (case keywordSearch db (extractKeywords query) (limit - length found) status cat of
                  None \<Rightarrow> Inl KnowledgeBaseUnavailable
                | Some keywordResults \<Rightarrow>
                    let uniqueKeywordResults =
                          filter (\<lambda>a. a_id a \<notin> set (map a_id found)) keywordResults
                    in Inr (take limit (scoreArticles (found @ uniqueKeywordResults) query)))
          else Inr (take limit (scoreArticles found query)))"

section \<open>Draft composer (llmService, stub mode)\<close>

record draftResult =
  draftReply :: string
  citations :: "objectId list"

fun templates :: "category \<Rightarrow> string" where
  "templates Billing = ''Thank you for contacting us regarding your billing inquiry. I understand your concern and I'm here to help resolve this issue promptly.''"
| "templates Tech = ''Thank you for reporting this technical issue. I apologize for any inconvenience this may have caused. Let me help you resolve this problem.''"
| "templates Shipping = ''Thank you for contacting us about your shipment. I understand you're looking for information about your delivery and I'm here to help.''"
| "templates Other = ''Thank you for reaching out to our support team. I'm here to assist you with your inquiry.''"

function showNat :: "nat \<Rightarrow> string" where
  \<comment> \<open>a number in a template literal: its decimal digits\<close>
  "showNat n = (if n < 10 then [char_of (48 + n)] else showNat (n div 10) @ [char_of (48 + n mod 10)])"
  by pat_completeness auto
termination
  by (relation "measure id") auto

fun referenceLines :: "nat \<Rightarrow> article list \<Rightarrow> string" where
  \<comment> \<open>the \<open>forEach\<close> that appends one numbered title per line, from the given index\<close>
  "referenceLines index [] = []"
| "referenceLines index (a # as) =
     showNat (index + 1) @ ''. '' @ a_title a @ [CHR 0x0A] @ referenceLines (index + 1) as"

definition stubDraft :: "string \<Rightarrow> article list option \<Rightarrow> draftResult option" where
  \<comment> \<open>\<open>_stubDraft\<close>; \<open>None\<close> only if the classification inside throws\<close>
  "stubDraft ticketText articles =
     (case stubClassify ticketText of
        None \<Rightarrow> None
      | Some c \<Rightarrow>
          let opening = templates (predictedCategory c);
              resources =
                (case articles of
                   None \<Rightarrow> []
                 | Some as \<Rightarrow>
                     if length as > 0
                     then [CHR 0x0A, CHR 0x0A]
                          @ ''Based on our knowledge base, here are some relevant resources that may help:''
                          @ [CHR 0x0A, CHR 0x0A]
                          @ referenceLines 0 (take 3 as)
                          @ [CHR 0x0A]
                          @ ''Please review these resources, and if you need further assistance, don't hesitate to reply to this ticket.''
                     else [])
          in Some \<lparr> draftReply = opening @ resources @ [CHR 0x0A, CHR 0x0A] @ ''Best regards,''
                                   @ [CHR 0x0A] @ ''Support Team'',
                     citations = (case articles of None \<Rightarrow> [] | Some as \<Rightarrow> map a_id (take 3 as)) \<rparr>)"

definition draft :: "bool \<Rightarrow> string \<Rightarrow> article list option \<Rightarrow> error + draftResult" where
  \<comment> \<open>\<open>draft\<close>: the stub in stub mode; otherwise \<open>_realDraft\<close> throws, and every throw
      inside the \<open>try\<close> is replaced by 'Draft generation service unavailable'.\<close>
  "draft stubMode ticketText relevantArticles =
     (if stubMode
      then (case stubDraft ticketText relevantArticles of
              None \<Rightarrow> Inl DraftUnavailable
            | Some d \<Rightarrow> Inr d)
      else Inl DraftUnavailable)"

section \<open>Documents of the store\<close>

text \<open>
  Each collection is the list of its documents in natural order. Field names carry
  a prefix per document type (\<open>t_\<close> ticket, \<open>r_\<close> reply, \<open>u_\<close> user, \<open>s_\<close> suggestion,
  \<open>l_\<close> audit log) because several types share names such as \<open>ticketId\<close>. Dates are
  natural numbers read from a clock.
\<close>

datatype ticketStatus = Open | Triaged | WaitingHuman | Resolved | Closed

datatype role = Admin | Agent | EndUser

record reply =
  r_author :: objectId
  r_content :: string
  r_isInternal :: bool

record ticket =
  t_id :: objectId
  t_title :: string
  t_description :: string
  t_category :: category
  t_status :: ticketStatus
  t_createdBy :: objectId
  t_assignee :: "objectId option"
  t_agentSuggestionId :: "objectId option"
  t_replies :: "reply list"
  t_resolvedAt :: "nat option"

record user =
  u_id :: objectId
  u_name :: string
  u_email :: string
  u_role :: role
  u_isActive :: bool

record modelInfo =
  provider :: string
  model :: string
  promptVersion :: string
  latencyMs :: nat

text \<open>
  Modelled from the spec: the AgentSuggestion model (models/AgentSuggestion.js) is
  not among the sources. The record follows the TriageSuggestion of the spec's data
  model and the fields the orchestrator and its tests read and write; the acceptance
  state is undecided (\<open>None\<close>), accepted or rejected, and \<open>autoClosed\<close> is false
  unless set.
\<close>

record suggestion =
  s_id :: objectId
  s_ticketId :: objectId
  s_traceId :: string
  s_predictedCategory :: category
  s_articleIds :: "objectId list"
  s_draftReply :: string
  s_confidence :: rat
  s_autoClosed :: bool
  s_accepted :: "bool option"
  s_acceptedBy :: "objectId option"
  s_acceptedAt :: "nat option"
  s_modelInfo :: modelInfo

record config =
  autoCloseEnabled :: bool
  confidenceThreshold :: rat
  slaHours :: nat
  maxTicketsPerUser :: nat
  categoryThresholds :: "category \<Rightarrow> rat option"

fun defaultCategoryThresholds :: "category \<Rightarrow> rat option" where
  "defaultCategoryThresholds Billing = Some (double (75 / 100))"
| "defaultCategoryThresholds Tech = Some (double (80 / 100))"
| "defaultCategoryThresholds Shipping = Some (double (70 / 100))"
| "defaultCategoryThresholds Other = Some (double (85 / 100))"

definition defaultConfig :: config where
  \<comment> \<open>\<open>new Config()\<close>: the defaults of the schema\<close>
  "defaultConfig =
     \<lparr> autoCloseEnabled = True, confidenceThreshold = double (78 / 100), slaHours = 24,
       maxTicketsPerUser = 10, categoryThresholds = defaultCategoryThresholds \<rparr>"

datatype actor = SystemActor | AgentActor | UserActor

datatype action =
    TICKET_CREATED | TRIAGE_STARTED | AGENT_CLASSIFIED | KB_RETRIEVED | DRAFT_GENERATED
  | AUTO_CLOSED | ASSIGNED_TO_HUMAN | REPLY_SENT | STATUS_CHANGED | TICKET_ASSIGNED
  | TICKET_REOPENED | SUGGESTION_ACCEPTED | SUGGESTION_REJECTED | TRIAGE_FAILED

datatype metaValue =
    MString string
  | MNumber rat
  | MBool bool
  | MCategory category
  | MId objectId
  | MIds "objectId list"

record auditLog =
  l_ticketId :: objectId
  l_traceId :: string
  l_actor :: actor
  l_action :: action
  l_meta :: "(string \<times> metaValue) list"
  l_timestamp :: nat

record database =
  tickets :: "ticket list"
  suggestions :: "suggestion list"
  auditLogs :: "auditLog list"
  users :: "user list"
  configs :: "config list"

text \<open>
  What a run reads from outside the store: the mode of the language-model service,
  the article store, the clock, and the fresh identifiers that \<open>uuidv4()\<close>,
  \<open>new AgentSuggestion\<close> and \<open>new User\<close> draw.
\<close>

record environment =
  stubMode :: bool
  articleDb :: articleStore
  now :: nat
  uuid :: string
  newSuggestionId :: objectId
  newUserId :: objectId

fun saveDoc :: "('a \<Rightarrow> objectId) \<Rightarrow> 'a \<Rightarrow> 'a list \<Rightarrow> 'a list" where
  \<comment> \<open>\<open>document.save()\<close>: replace the stored document of the same identifier, or
      insert a new one at the end of the collection\<close>
  "saveDoc key d [] = [d]"
| "saveDoc key d (x # xs) = (if key x = key d then d # xs else x # saveDoc key d xs)"

definition findById :: "('a \<Rightarrow> objectId) \<Rightarrow> objectId \<Rightarrow> 'a list \<Rightarrow> 'a option" where
  "findById key i ds = find (\<lambda>x. key x = i) ds"

section \<open>Orchestrator (agentService)\<close>

definition newAuditLog ::
  "environment \<Rightarrow> objectId \<Rightarrow> string \<Rightarrow> actor \<Rightarrow> action \<Rightarrow> (string \<times> metaValue) list \<Rightarrow> auditLog" where
  \<comment> \<open>\<open>new AuditLog({ticketId, traceId, actor, action, meta, timestamp: new Date()})\<close>\<close>
  "newAuditLog env ticketId traceId act action meta =
     \<lparr> l_ticketId = ticketId, l_traceId = traceId, l_actor = act, l_action = action,
       l_meta = meta, l_timestamp = now env \<rparr>"

definition logAuditEvent ::
  "environment \<Rightarrow> database \<Rightarrow> objectId \<Rightarrow> string \<Rightarrow> actor \<Rightarrow> action \<Rightarrow> (string \<times> metaValue) list \<Rightarrow> database" where
  \<comment> \<open>\<open>_logAuditEvent\<close>: one new document at the end of the audit collection\<close>
  "logAuditEvent env db ticketId traceId act action meta =
     db\<lparr>auditLogs := auditLogs db @ [newAuditLog env ticketId traceId act action meta]\<rparr>"

definition getConfig :: "database \<Rightarrow> config \<times> database" where
  \<comment> \<open>\<open>_getConfig\<close>: the first configuration document; a default one is stored if none\<close>
  "getConfig db =
     (case configs db of
        c # rest \<Rightarrow> (c, db)
      | [] \<Rightarrow> (defaultConfig, db\<lparr>configs := [defaultConfig]\<rparr>))"

definition getSystemUser :: "environment \<Rightarrow> database \<Rightarrow> objectId \<times> database" where
  \<comment> \<open>\<open>_getSystemUser\<close>: the user with the system e-mail address, created on first use\<close>
  "getSystemUser env db =
     (case find (\<lambda>u. u_email u = ''system@helpdesk.ai'') (users db) of
        Some systemUser \<Rightarrow> (u_id systemUser, db)
      | None \<Rightarrow>
          (newUserId env,
           db\<lparr>users := saveDoc u_id
                  \<lparr> u_id = newUserId env, u_name = ''AI Assistant'',
                    u_email = ''system@helpdesk.ai'', u_role = Agent, u_isActive = True \<rparr>
                  (users db)\<rparr>))"

definition ticketCount :: "database \<Rightarrow> user \<Rightarrow> nat" where
  \<comment> \<open>\<open>Ticket.countDocuments({assignee, status: {$in: ['triaged', 'waiting_human']}})\<close>\<close>
  "ticketCount db agent =
     length (filter (\<lambda>t. t_assignee t = Some (u_id agent)
                          \<and> (t_status t = Triaged \<or> t_status t = WaitingHuman)) (tickets db))"

definition findAvailableAgent :: "database \<Rightarrow> user option" where
  \<comment> \<open>\<open>_findAvailableAgent\<close>: the active agent or admin with the fewest waiting
      tickets; the sort is stable\<close>
  "findAvailableAgent db =
     (let agents = filter (\<lambda>u. (u_role u = Agent \<or> u_role u = Admin) \<and> u_isActive u) (users db)
      in case sort_key snd (map (\<lambda>agent. (agent, ticketCount db agent)) agents) of
           [] \<Rightarrow> None
         | w # rest \<Rightarrow> Some (fst w))"

definition getModelInfo :: "bool \<Rightarrow> nat \<Rightarrow> modelInfo" where
  \<comment> \<open>\<open>getModelInfo(latencyMs = 0)\<close>\<close>
  "getModelInfo stub latency =
     \<lparr> provider = (if stub then ''stub'' else ''openai''),
       model = (if stub then ''deterministic-v1'' else ''gpt-3.5-turbo''),
       promptVersion = ''v1.0'', latencyMs = latency \<rparr>"

definition planWorkflow ::
  "environment \<Rightarrow> database \<Rightarrow> objectId \<Rightarrow> string \<Rightarrow> (error + ticket) \<times> database" where
  \<comment> \<open>\<open>_planWorkflow\<close>: load the ticket and log the start of the run\<close>
  "planWorkflow env db ticketId traceId =
     (case findById t_id ticketId (tickets db) of
        None \<Rightarrow> (Inl TicketNotFound, db)
      | Some tk \<Rightarrow>
          (Inr tk,
           logAuditEvent env db ticketId traceId SystemActor TRIAGE_STARTED
             [(''ticketTitle'', MString (t_title tk)), (''category'', MCategory (t_category tk))]))"

definition classifyTicket ::
  "environment \<Rightarrow> database \<Rightarrow> ticket \<Rightarrow> string \<Rightarrow> (error + classification \<times> ticket) \<times> database" where
  \<comment> \<open>\<open>_classifyTicket\<close>; the ticket object is returned as the step leaves it\<close>
  "classifyTicket env db tk traceId =
     (let ticketText = t_title tk @ [CHR 0x0A, CHR 0x0A] @ t_description tk
      in case classify (stubMode env) ticketText of
           Inl e \<Rightarrow> (Inl e, db)
         | Inr c \<Rightarrow>
             let db1 = logAuditEvent env db (t_id tk) traceId SystemActor AGENT_CLASSIFIED
                         [(''originalCategory'', MCategory (t_category tk)),
                          (''predictedCategory'', MCategory (predictedCategory c)),
                          (''confidence'', MNumber (confidence c))]
             in if predictedCategory c \<noteq> t_category tk \<and> confidence c > double (7 / 10)
                then (let tk1 = tk\<lparr>t_category := predictedCategory c\<rparr>
                      in (Inr (c, tk1), db1\<lparr>tickets := saveDoc t_id tk1 (tickets db1)\<rparr>))
                else (Inr (c, tk), db1))"

definition retrieveKnowledge ::
  "environment \<Rightarrow> database \<Rightarrow> ticket \<Rightarrow> classification \<Rightarrow> string \<Rightarrow> (error + article list) \<times> database" where
  \<comment> \<open>\<open>_retrieveKnowledge\<close>: at most three articles of the predicted category\<close>
  "retrieveKnowledge env db tk c traceId =
     (let query = t_title tk @ '' '' @ t_description tk
      in case searchArticles (articleDb env) query 3 (Some (predictedCategory c)) Published of
           Inl e \<Rightarrow> (Inl e, db)
         | Inr articles \<Rightarrow>
             (Inr articles,
              logAuditEvent env db (t_id tk) traceId SystemActor KB_RETRIEVED
                [(''query'', MString (take 100 query)),
                 (''articlesFound'', MNumber (of_nat (length articles))),
                 (''articleIds'', MIds (map a_id articles)),
                 (''category'', MCategory (predictedCategory c))]))"

definition draftReplyStep ::
  "environment \<Rightarrow> database \<Rightarrow> ticket \<Rightarrow> article list \<Rightarrow> string \<Rightarrow> (error + draftResult) \<times> database" where
  \<comment> \<open>\<open>_draftReply\<close> (the name \<open>draftReply\<close> is the field of the result)\<close>
  "draftReplyStep env db tk articles traceId =
     (let ticketText = t_title tk @ [CHR 0x0A, CHR 0x0A] @ t_description tk
      in case draft (stubMode env) ticketText (Some articles) of
           Inl e \<Rightarrow> (Inl e, db)
         | Inr d \<Rightarrow>
             (Inr d,
              logAuditEvent env db (t_id tk) traceId SystemActor DRAFT_GENERATED
                [(''draftLength'', MNumber (of_nat (length (draftReply d)))),
                 (''citationsCount'', MNumber (of_nat (length (citations d)))),
                 (''citations'', MIds (citations d))]))"

datatype decisionAction = AutoClosed | AssignedToHuman

record decision =
  d_action :: decisionAction
  d_suggestion :: suggestion
  d_assignee :: "user option"

record triageResult =
  tr_ticket :: ticket
  tr_classification :: classification
  tr_articles :: "article list"
  tr_draft :: draftResult
  tr_decision :: decision

definition shouldAutoClose :: "config \<Rightarrow> classification \<Rightarrow> bool" where
  \<comment> \<open>\<open>config.autoCloseEnabled && classification.confidence >= config.confidenceThreshold\<close>\<close>
  "shouldAutoClose cfg c = (autoCloseEnabled cfg \<and> confidence c \<ge> confidenceThreshold cfg)"

definition newSuggestion ::
  "environment \<Rightarrow> ticket \<Rightarrow> classification \<Rightarrow> article list \<Rightarrow> draftResult \<Rightarrow> string \<Rightarrow> suggestion" where
  \<comment> \<open>\<open>new AgentSuggestion({...})\<close> in \<open>_makeDecision\<close>\<close>
  "newSuggestion env tk c articles d traceId =
     \<lparr> s_id = newSuggestionId env, s_ticketId = t_id tk, s_traceId = traceId,
       s_predictedCategory = predictedCategory c, s_articleIds = map a_id articles,
       s_draftReply = draftReply d, s_confidence = confidence c, s_autoClosed = False,
       s_accepted = None, s_acceptedBy = None, s_acceptedAt = None,
       s_modelInfo = getModelInfo (stubMode env) 0 \<rparr>"

definition autoClose ::
  "environment \<Rightarrow> database \<Rightarrow> config \<Rightarrow> ticket \<Rightarrow> classification \<Rightarrow> draftResult \<Rightarrow> suggestion \<Rightarrow> string
     \<Rightarrow> (decision \<times> ticket) \<times> database" where
  \<comment> \<open>the branch \<open>if (shouldAutoClose)\<close> of \<open>_makeDecision\<close>\<close>
  "autoClose env db cfg tk c d sg traceId =
     (let sg1 = sg\<lparr>s_autoClosed := True\<rparr>;
          db1 = db\<lparr>suggestions := saveDoc s_id sg1 (suggestions db)\<rparr>
      in case getSystemUser env db1 of
           (systemUser, db2) \<Rightarrow>
             let tk1 = tk\<lparr> t_replies := t_replies tk @
                               [\<lparr> r_author = systemUser, r_content = draftReply d,
                                  r_isInternal = False \<rparr>],
                            t_status := Resolved,
                            t_agentSuggestionId := Some (s_id sg1),
                            t_resolvedAt := Some (now env) \<rparr>;
                 db3 = db2\<lparr>tickets := saveDoc t_id tk1 (tickets db2)\<rparr>;
                 db4 = logAuditEvent env db3 (t_id tk1) traceId SystemActor AUTO_CLOSED
                         [(''confidence'', MNumber (confidence c)),
                          (''threshold'', MNumber (confidenceThreshold cfg)),
                          (''suggestionId'', MId (s_id sg1))]
             in ((\<lparr> d_action = AutoClosed, d_suggestion = sg1, d_assignee = None \<rparr>, tk1), db4))"

definition assignToHuman ::
  "environment \<Rightarrow> database \<Rightarrow> ticket \<Rightarrow> classification \<Rightarrow> draftResult \<Rightarrow> suggestion \<Rightarrow> string
     \<Rightarrow> (decision \<times> ticket) \<times> database" where
  \<comment> \<open>the \<open>else\<close> branch of \<open>_makeDecision\<close>\<close>
  "assignToHuman env db tk c d sg traceId =
     (let db1 = db\<lparr>suggestions := saveDoc s_id sg (suggestions db)\<rparr>
      in case getSystemUser env db1 of
           (systemUser, db2) \<Rightarrow>
             let tk1 = tk\<lparr> t_replies := t_replies tk @
                               [\<lparr> r_author = systemUser, r_content = draftReply d,
                                  r_isInternal = False \<rparr>],
                            t_status := WaitingHuman,
                            t_agentSuggestionId := Some (s_id sg) \<rparr>;
                 agent = findAvailableAgent db2;
                 tk2 = (case agent of None \<Rightarrow> tk1 | Some a \<Rightarrow> tk1\<lparr>t_assignee := Some (u_id a)\<rparr>);
                 db3 = logAuditEvent env db2 (t_id tk) traceId SystemActor ASSIGNED_TO_HUMAN
                         (case agent of
                            Some a \<Rightarrow>
                              [(''assigneeId'', MId (u_id a)), (''assigneeName'', MString (u_name a)),
                               (''reason'', MString ''low_confidence''),
                               (''confidence'', MNumber (confidence c))]
                          | None \<Rightarrow>
                              [(''reason'', MString ''no_agent_available''),
                               (''confidence'', MNumber (confidence c))]);
                 db4 = db3\<lparr>tickets := saveDoc t_id tk2 (tickets db3)\<rparr>;
                 db5 = logAuditEvent env db4 (t_id tk) traceId SystemActor REPLY_SENT
                         [(''replyContent'', MString (take 100 (draftReply d))),
                          (''isAutoReply'', MBool True),
                          (''confidence'', MNumber (confidence c))]
             in ((\<lparr> d_action = AssignedToHuman, d_suggestion = sg, d_assignee = agent \<rparr>, tk2), db5))"

definition makeDecision ::
  "environment \<Rightarrow> database \<Rightarrow> ticket \<Rightarrow> classification \<Rightarrow> article list \<Rightarrow> draftResult \<Rightarrow> string
     \<Rightarrow> (decision \<times> ticket) \<times> database" where
  \<comment> \<open>\<open>_makeDecision\<close>: read the configuration, build the suggestion, choose the branch\<close>
  "makeDecision env db tk c articles d traceId =
     (case getConfig db of
        (cfg, db1) \<Rightarrow>
          let sg = newSuggestion env tk c articles d traceId
          in if shouldAutoClose cfg c
             then autoClose env db1 cfg tk c d sg traceId
             else assignToHuman env db1 tk c d sg traceId)"

definition executePlan ::
  "environment \<Rightarrow> database \<Rightarrow> ticket \<Rightarrow> string \<Rightarrow> (error + triageResult) \<times> database" where
  \<comment> \<open>\<open>_executePlan\<close>: classify, retrieve, draft, decide; the first throw ends the plan\<close>
  "executePlan env db tk traceId =
     (case classifyTicket env db tk traceId of
        (Inl e, db1) \<Rightarrow> (Inl e, db1)
      | (Inr (c, tk1), db1) \<Rightarrow>
          (case retrieveKnowledge env db1 tk1 c traceId of
             (Inl e, db2) \<Rightarrow> (Inl e, db2)
           | (Inr articles, db2) \<Rightarrow>
               (case draftReplyStep env db2 tk1 articles traceId of
                  (Inl e, db3) \<Rightarrow> (Inl e, db3)
                | (Inr d, db3) \<Rightarrow>
                    (case makeDecision env db3 tk1 c articles d traceId of
                       ((dec, tk2), db4) \<Rightarrow>
                         (Inr \<lparr> tr_ticket = tk2, tr_classification = c, tr_articles = articles,
                                tr_draft = d, tr_decision = dec \<rparr>, db4)))))"

definition traceOf :: "environment \<Rightarrow> string option \<Rightarrow> string" where
  \<comment> \<open>\<open>traceId || uuidv4()\<close>: a missing or empty trace identifier is replaced\<close>
  "traceOf env traceId = (case traceId of None \<Rightarrow> uuid env | Some t \<Rightarrow> if t = [] then uuid env else t)"

definition triageTicket ::
  "environment \<Rightarrow> database \<Rightarrow> objectId \<Rightarrow> string option \<Rightarrow> (error + triageResult) \<times> database" where
  \<comment> \<open>\<open>triageTicket\<close>: plan and execute; on a throw, log TRIAGE_FAILED and rethrow\<close>
  "triageTicket env db ticketId traceId =
     (let trace = traceOf env traceId;
          run = (case planWorkflow env db ticketId trace of
                   (Inl e, db1) \<Rightarrow> (Inl e, db1)
                 | (Inr tk, db1) \<Rightarrow> executePlan env db1 tk trace)
      in case run of
           (Inr result, db2) \<Rightarrow> (Inr result, db2)
         | (Inl e, db2) \<Rightarrow>
             (Inl e, logAuditEvent env db2 ticketId trace SystemActor TRIAGE_FAILED
                       [(''error'', MString (errorMessage e))]))"

definition acceptSuggestion ::
  "environment \<Rightarrow> database \<Rightarrow> objectId \<Rightarrow> objectId \<Rightarrow> (error + suggestion) \<times> database" where
  "acceptSuggestion env db suggestionId agentId =
     (case findById s_id suggestionId (suggestions db) of
        None \<Rightarrow> (Inl SuggestionNotFound, db)
      | Some sg \<Rightarrow>
          let sg1 = sg\<lparr> s_accepted := Some True, s_acceptedBy := Some agentId,
                        s_acceptedAt := Some (now env) \<rparr>;
              db1 = db\<lparr>suggestions := saveDoc s_id sg1 (suggestions db)\<rparr>;
              db2 = (case findById t_id (s_ticketId sg1) (tickets db1) of
                       None \<Rightarrow> db1
                     | Some tk \<Rightarrow>
                         db1\<lparr>tickets := saveDoc t_id
                                (tk\<lparr>t_replies := t_replies tk @
                                      [\<lparr> r_author = agentId, r_content = s_draftReply sg1,
                                         r_isInternal = False \<rparr>]\<rparr>)
                                (tickets db1)\<rparr>)
          in (Inr sg1,
              logAuditEvent env db2 (s_ticketId sg1) (s_traceId sg1) AgentActor SUGGESTION_ACCEPTED
                [(''suggestionId'', MId suggestionId), (''agentId'', MId agentId)]))"

definition rejectSuggestion ::
  "environment \<Rightarrow> database \<Rightarrow> objectId \<Rightarrow> objectId \<Rightarrow> string \<Rightarrow> (error + suggestion) \<times> database" where
  "rejectSuggestion env db suggestionId agentId reason =
     (case findById s_id suggestionId (suggestions db) of
        None \<Rightarrow> (Inl SuggestionNotFound, db)
      | Some sg \<Rightarrow>
          let sg1 = sg\<lparr> s_accepted := Some False, s_acceptedBy := Some agentId,
                        s_acceptedAt := Some (now env) \<rparr>;
              db1 = db\<lparr>suggestions := saveDoc s_id sg1 (suggestions db)\<rparr>
          in (Inr sg1,
              logAuditEvent env db1 (s_ticketId sg1) (s_traceId sg1) AgentActor SUGGESTION_REJECTED
                [(''suggestionId'', MId suggestionId), (''agentId'', MId agentId),
                 (''reason'', MString reason)]))"

section \<open>Notions the properties are stated with\<close>

definition declaredIndex :: "category \<Rightarrow> nat" where
  \<comment> \<open>the position of a category in the declaration order of the score table\<close>
  "declaredIndex c = length (takeWhile (\<lambda>k. k \<noteq> c) categoryKeys)"

definition specThreshold :: "config \<Rightarrow> category \<Rightarrow> rat" where
  \<comment> \<open>The threshold as the specification words it: the per-category threshold if
      configured, else the global threshold. It is not a function of the source.\<close>
  "specThreshold cfg cat =
     (case categoryThresholds cfg cat of Some t \<Rightarrow> t | None \<Rightarrow> confidenceThreshold cfg)"

section \<open>Concrete data for the worked examples\<close>

definition refundPolicy :: article where
  "refundPolicy =
     \<lparr> a_id = ''a1'', a_title = ''Refund policy'', a_body = ''How to get your money back'',
       a_tags = Some [''billing''], a_status = Published, a_helpful = None, a_notHelpful = None,
       a_score = Some (9 / 8), a_relevanceScore = None \<rparr>"

definition refundStatus :: article where
  "refundStatus =
     \<lparr> a_id = ''a2'', a_title = ''Refund status'', a_body = ''Where to track a repayment'',
       a_tags = Some [''billing''], a_status = Published, a_helpful = Some 1, a_notHelpful = None,
       a_score = Some (33 / 32), a_relevanceScore = None \<rparr>"

definition refundForm :: article where
  "refundForm =
     \<lparr> a_id = ''a3'', a_title = ''Refund form'', a_body = ''Fill in the form to be repaid'',
       a_tags = Some [''billing''], a_status = Published, a_helpful = Some 3, a_notHelpful = None,
       a_score = Some 1, a_relevanceScore = None \<rparr>"

definition oldFaq :: article where
  \<comment> \<open>an article with a text score of 0.125 and two not-helpful votes\<close>
  "oldFaq =
     \<lparr> a_id = ''a4'', a_title = ''Old FAQ'', a_body = ''Outdated answers'',
       a_tags = Some [''faq''], a_status = Published, a_helpful = None, a_notHelpful = Some 2,
       a_score = Some (1 / 8), a_relevanceScore = None \<rparr>"

definition exampleStore :: articleStore where
  \<comment> \<open>a store whose text search finds the three articles, best text score first and
      at most \<open>limit\<close> of them, and whose keyword search finds nothing more\<close>
  "exampleStore =
     \<lparr> textSearch = (\<lambda>query limit status cat. Some (take limit [refundPolicy, refundStatus, refundForm])),
       keywordSearch = (\<lambda>kws limit status cat. Some []) \<rparr>"


definition brokenStore :: articleStore where
  \<comment> \<open>a store that is unavailable: every query throws\<close>
  "brokenStore =
     \<lparr> textSearch = (\<lambda>query limit status cat. None),
       keywordSearch = (\<lambda>kws limit status cat. None) \<rparr>"

definition exampleTicket :: ticket where
  \<comment> \<open>the ticket of the service's own tests\<close>
  "exampleTicket =
     \<lparr> t_id = ''t1'', t_title = ''Refund request for double charge'',
       t_description = ''I was charged twice for the same order'', t_category = Other,
       t_status = Open, t_createdBy = ''u1'', t_assignee = None, t_agentSuggestionId = None,
       t_replies = [], t_resolvedAt = None \<rparr>"

definition exampleAgent :: user where
  "exampleAgent =
     \<lparr> u_id = ''u2'', u_name = ''Test Agent'', u_email = ''agent@example.com'', u_role = Agent,
       u_isActive = True \<rparr>"

definition exampleDb :: "rat \<Rightarrow> database" where
  \<comment> \<open>one open ticket, one agent, and a configuration with the given global threshold
      and a billing threshold of 0.7\<close>
  "exampleDb threshold =
     \<lparr> tickets = [exampleTicket], suggestions = [], auditLogs = [], users = [exampleAgent],
       configs = [defaultConfig\<lparr> confidenceThreshold := threshold,
                                 categoryThresholds := defaultCategoryThresholds(Billing := Some (double (7 / 10))) \<rparr>] \<rparr>"

definition exampleEnv :: "articleStore \<Rightarrow> environment" where
  "exampleEnv store =
     \<lparr> stubMode = True, articleDb = store, now = 1000, uuid = ''trace-1'',
       newSuggestionId = ''s1'', newUserId = ''u0'' \<rparr>"

definition exampleSuggestion :: suggestion where
  \<comment> \<open>the stored suggestion of the service's own tests\<close>
  "exampleSuggestion =
     \<lparr> s_id = ''s9'', s_ticketId = ''t1'', s_traceId = ''test-trace-id'',
       s_predictedCategory = Billing, s_articleIds = [''a1''], s_draftReply = ''Test draft reply'',
       s_confidence = double (85 / 100), s_autoClosed = False, s_accepted = None, s_acceptedBy = None,
       s_acceptedAt = None, s_modelInfo = getModelInfo True 100 \<rparr>"

section \<open>Further notions the properties are stated with\<close>

definition specRelevance :: "string list \<Rightarrow> article \<Rightarrow> rat" where
  \<comment> \<open>The composite relevance score as the specification words it, in exact
      arithmetic. It is not a function of the source.\<close>
  "specRelevance kws a =
     orZero (a_score a)
       + 3 * of_nat (countMatches (a_title a) kws)
       + 1 * of_nat (countMatches (a_body a) kws)
       + 2 * of_nat (tagMatches (a_tags a) kws)
       + (1 / 10) * orZero (a_helpful a)
       - (5 / 100) * orZero (a_notHelpful a)"

definition pipelineFailure :: "environment \<Rightarrow> ticket \<Rightarrow> error option" where
  \<comment> \<open>The first of the three service calls of a run on this ticket (classify, search,
      draft, with the arguments the orchestrator passes) that throws, if any.\<close>
  "pipelineFailure env tk =
     (case classify (stubMode env) (t_title tk @ [CHR 0x0A, CHR 0x0A] @ t_description tk) of
        Inl e \<Rightarrow> Some e
      | Inr c \<Rightarrow>
          (case searchArticles (articleDb env) (t_title tk @ '' '' @ t_description tk) 3
                  (Some (predictedCategory c)) Published of
             Inl e \<Rightarrow> Some e
           | Inr articles \<Rightarrow>
               (case draft (stubMode env) (t_title tk @ [CHR 0x0A, CHR 0x0A] @ t_description tk)
                       (Some articles) of
                  Inl e \<Rightarrow> Some e
                | Inr d \<Rightarrow> None)))"


section \<open>Properties of the rounding\<close>

text \<open>
  The exponent found by \<open>exponentOf\<close> is the binary exponent, so \<open>double\<close> rounds to a
  significand of 53 bits: its relative error is at most \<open>2^-53\<close>, and it leaves the
  numbers it returns unchanged.
\<close>

lemma roundHalfEven_error: "\<bar>of_int (roundHalfEven q) - q\<bar> \<le> 1 / 2"
proof -
  have "of_int \<lfloor>q\<rfloor> \<le> q" "q < of_int \<lfloor>q\<rfloor> + 1" by linarith+
  then show ?thesis by (auto simp: roundHalfEven_def Let_def)
qed

lemma roundHalfEven_nonneg: "0 \<le> q \<Longrightarrow> 0 \<le> roundHalfEven q"
  by (auto simp: roundHalfEven_def Let_def)

lemma exponentOf_le:
  assumes "x \<noteq> 0"
  shows "2 powi (exponentOf x) \<le> \<bar>x\<bar>"
proof -
  obtain a b where q: "quotient_of \<bar>x\<bar> = (a, b)" by (cases "quotient_of \<bar>x\<bar>")
  have b: "0 < b" using q by (rule quotient_of_denom_pos)
  have x: "\<bar>x\<bar> = of_int a / of_int b" using q by (rule quotient_of_div)
  have a: "0 < a"
  proof (rule ccontr)
    assume "\<not> 0 < a"
    then have "of_int a / (of_int b :: rat) \<le> 0" using b by (simp add: divide_le_0_iff)
    then show False using x assms by simp
  qed
  let ?k = "bitlen a - bitlen b"
  show ?thesis
  proof (cases "2 powi ?k \<le> \<bar>x\<bar>")
    case True
    then show ?thesis by (simp add: exponentOf_def q Let_def)
  next
    case False
    have la: "2 ^ nat (bitlen a - 1) \<le> a" using bitlen_bounds [OF a] by simp
    have lb: "b < 2 ^ nat (bitlen b)" using bitlen_bounds [OF b] by simp
    have la1: "1 \<le> bitlen a" using a by (simp add: bitlen_alt_def)
    have lb0: "0 \<le> bitlen b" by (rule bitlen_nonneg)
    have n: "(2::rat) powi (bitlen a - 1) = 2 ^ nat (bitlen a - 1)"
      using la1 by (simp add: power_int_def)
    have d: "(2::rat) powi (bitlen b) = 2 ^ nat (bitlen b)"
      using lb0 by (simp add: power_int_def)
    have "(2::rat) powi (?k - 1) = 2 powi (bitlen a - 1) / 2 powi (bitlen b)"
      using power_int_diff [of "2::rat" "bitlen a - 1" "bitlen b"] by (simp add: algebra_simps)
    also have "\<dots> = 2 ^ nat (bitlen a - 1) / 2 ^ nat (bitlen b)" by (simp only: n d)
    also have "\<dots> \<le> of_int a / of_int b"
    proof -
      have "(of_int (2 ^ nat (bitlen a - 1)) :: rat) \<le> of_int a" using la by (simp only: of_int_le_iff)
      then have A: "(2::rat) ^ nat (bitlen a - 1) \<le> of_int a" by simp
      have "(of_int b :: rat) \<le> of_int (2 ^ nat (bitlen b))" using lb by (simp only: of_int_le_iff)
      then have B: "(of_int b :: rat) \<le> 2 ^ nat (bitlen b)" by simp
      have C: "(0::rat) < of_int b" "(0::rat) \<le> of_int a" using a b by simp_all
      show ?thesis using A B C by (intro frac_le)
    qed
    finally have "2 powi (?k - 1) \<le> \<bar>x\<bar>" using x by simp
    then show ?thesis using False by (simp add: exponentOf_def q Let_def)
  qed
qed

lemma double_error: "\<bar>double x - x\<bar> \<le> \<bar>x\<bar> / 2 ^ 53"
proof (cases "x = 0")
  case True
  then show ?thesis by (simp add: double_def)
next
  case False
  let ?p = "(2::rat) powi (exponentOf x - 52)"
  let ?q = "\<bar>x\<bar> / ?p"
  let ?n = "of_int (roundHalfEven ?q) :: rat"
  have p: "0 < ?p" by (simp add: zero_less_power_int)
  have dx: "double x = sgn x * ?n * ?p" using False by (simp add: double_def Let_def)
  have xx: "x = sgn x * ?q * ?p" using p by (simp add: sgn_mult_abs)
  have "double x - x = sgn x * (?n - ?q) * ?p"
    by (subst dx, subst (2) xx) (simp add: algebra_simps)
  then have "\<bar>double x - x\<bar> = \<bar>?n - ?q\<bar> * ?p"
    using False p by (simp add: abs_mult abs_sgn_eq)
  also have "\<dots> \<le> (1 / 2) * ?p"
    using roundHalfEven_error [of ?q] p by (intro mult_right_mono) simp_all
  also have "(1 / 2) * ?p = 2 powi (exponentOf x) / 2 ^ 53"
  proof -
    have "(2::rat) powi (exponentOf x - 52) = 2 powi (exponentOf x) / 2 powi 52"
      by (rule power_int_diff) simp
    then show ?thesis by simp
  qed
  also have "\<dots> \<le> \<bar>x\<bar> / 2 ^ 53"
    using exponentOf_le [OF False] by (simp add: divide_right_mono)
  finally show ?thesis .
qed

lemma double_nonneg: "0 \<le> x \<Longrightarrow> 0 \<le> double x"
  by (auto simp: double_def Let_def zero_less_power_int roundHalfEven_nonneg sgn_if
           intro!: mult_nonneg_nonneg divide_nonneg_nonneg less_imp_le)

lemma double_lower: "0 \<le> x \<Longrightarrow> x * (1 - 1 / 2 ^ 53) \<le> double x"
proof -
  assume "0 \<le> x"
  then have "\<bar>double x - x\<bar> \<le> x / 2 ^ 53" using double_error [of x] by simp
  then have "x - x / 2 ^ 53 \<le> double x" by linarith
  then show ?thesis by (simp add: algebra_simps)
qed

lemma double_upper: "0 \<le> x \<Longrightarrow> double x \<le> x * (1 + 1 / 2 ^ 53)"
proof -
  assume "0 \<le> x"
  then have "\<bar>double x - x\<bar> \<le> x / 2 ^ 53" using double_error [of x] by simp
  then have "double x \<le> x + x / 2 ^ 53" by linarith
  then show ?thesis by (simp add: algebra_simps)
qed


lemma exponentOf_gt:
  assumes "x \<noteq> 0"
  shows "\<bar>x\<bar> < 2 powi (exponentOf x + 1)"
proof -
  obtain a b where q: "quotient_of \<bar>x\<bar> = (a, b)" by (cases "quotient_of \<bar>x\<bar>")
  have b: "0 < b" using q by (rule quotient_of_denom_pos)
  have x: "\<bar>x\<bar> = of_int a / of_int b" using q by (rule quotient_of_div)
  have a: "0 < a"
  proof (rule ccontr)
    assume "\<not> 0 < a"
    then have "of_int a / (of_int b :: rat) \<le> 0" using b by (simp add: divide_le_0_iff)
    then show False using x assms by simp
  qed
  let ?k = "bitlen a - bitlen b"
  show ?thesis
  proof (cases "2 powi ?k \<le> \<bar>x\<bar>")
    case False
    then show ?thesis by (simp add: exponentOf_def q Let_def)
  next
    case True
    have la: "a < 2 ^ nat (bitlen a)" using bitlen_bounds [OF a] by simp
    have lb: "2 ^ nat (bitlen b - 1) \<le> b" using bitlen_bounds [OF b] by simp
    have la0: "0 \<le> bitlen a" by (rule bitlen_nonneg)
    have lb1: "1 \<le> bitlen b" using b by (simp add: bitlen_alt_def)
    have n: "(2::rat) powi (bitlen a) = 2 ^ nat (bitlen a)"
      using la0 by (simp add: power_int_def)
    have d: "(2::rat) powi (bitlen b - 1) = 2 ^ nat (bitlen b - 1)"
      using lb1 by (simp add: power_int_def)
    have "(of_int a :: rat) < of_int (2 ^ nat (bitlen a))" using la by (simp only: of_int_less_iff)
    then have A: "(of_int a :: rat) < 2 ^ nat (bitlen a)" by simp
    have "(of_int (2 ^ nat (bitlen b - 1)) :: rat) \<le> of_int b" using lb by (simp only: of_int_le_iff)
    then have B: "(2::rat) ^ nat (bitlen b - 1) \<le> of_int b" by simp
    have "of_int a / of_int b < (2::rat) ^ nat (bitlen a) / 2 ^ nat (bitlen b - 1)"
      using A B a by (intro frac_less) simp_all
    also have "\<dots> = 2 powi (bitlen a) / 2 powi (bitlen b - 1)" by (simp only: n d)
    also have "\<dots> = 2 powi (?k + 1)"
      using power_int_diff [of "2::rat" "bitlen a" "bitlen b - 1"] by (simp add: algebra_simps)
    finally have less: "\<bar>x\<bar> < 2 powi (?k + 1)" using x by simp
    have "exponentOf x = ?k" unfolding exponentOf_def q using True by simp
    then show ?thesis using less by simp
  qed
qed

lemma powi_less_imp: "(2::rat) powi a < 2 powi b \<Longrightarrow> a < b"
proof (rule ccontr)
  assume less: "(2::rat) powi a < 2 powi b" and "\<not> a < b"
  then have "b \<le> a" by simp
  then have "(2::rat) powi b \<le> 2 powi a" by (intro power_int_increasing) simp_all
  with less show False by simp
qed

lemma double_unfold:
  "x \<noteq> 0 \<Longrightarrow>
     double x = sgn x * of_int (roundHalfEven (\<bar>x\<bar> / 2 powi (exponentOf x - 52)))
                  * 2 powi (exponentOf x - 52)"
  by (simp add: double_def Let_def)

lemma exponentOf_unique:
  assumes "x \<noteq> 0" and lo: "2 powi e \<le> \<bar>x\<bar>" and hi: "\<bar>x\<bar> < 2 powi (e + 1)"
  shows "exponentOf x = e"
proof -
  have "(2::rat) powi e < 2 powi (exponentOf x + 1)"
    using lo exponentOf_gt [OF assms(1)] by simp
  then have "e < exponentOf x + 1" by (rule powi_less_imp)
  moreover have "(2::rat) powi (exponentOf x) < 2 powi (e + 1)"
    using hi exponentOf_le [OF assms(1)] by simp
  then have "exponentOf x < e + 1" by (rule powi_less_imp)
  ultimately show ?thesis by simp
qed

lemma roundHalfEven_of_int [simp]: "roundHalfEven (of_int n) = n"
  by (simp add: roundHalfEven_def)

lemma roundHalfEven_ge: "of_int m \<le> q \<Longrightarrow> m \<le> roundHalfEven q"
proof -
  assume "of_int m \<le> q"
  then have "m \<le> \<lfloor>q\<rfloor>" by (simp add: le_floor_iff)
  then show ?thesis by (auto simp: roundHalfEven_def Let_def)
qed

lemma roundHalfEven_le: "q < of_int m \<Longrightarrow> roundHalfEven q \<le> m"
proof -
  assume "q < of_int m"
  then have "\<lfloor>q\<rfloor> < m" by (simp add: floor_less_iff)
  then show ?thesis by (auto simp: roundHalfEven_def Let_def)
qed

lemma double_zero [simp]: "double 0 = 0"
  by (simp add: double_def)

lemma powi_shift: "(2::rat) powi (e + int k) = 2 ^ k * 2 powi e"
  using power_int_add [of "2::rat" e "int k"] by (simp add: mult.commute)

lemma double_scaled:
  assumes n: "2 ^ 52 \<le> n" "n \<le> 2 ^ 53" and s: "s = 1 \<or> s = - 1"
  shows "double (s * of_int n * 2 powi e) = s * of_int n * 2 powi e"
proof -
  let ?p = "(2::rat) powi e"
  let ?y = "s * of_int n * ?p"
  have p: "0 < ?p" by (simp add: zero_less_power_int)
  have npos: "(0::rat) < of_int n" using n(1) by (simp add: less_le_trans [of 0 "2 ^ 52"])
  have y0: "?y \<noteq> 0" using s p npos by auto
  have ay: "\<bar>?y\<bar> = of_int n * ?p" using s p npos by (auto simp: abs_mult)
  have sy: "sgn ?y = s" using s p npos by (auto simp: sgn_mult)
  show ?thesis
  proof (cases "n = 2 ^ 53")
    case False
    then have lt: "n < 2 ^ 53" using n(2) by simp
    have "(of_int (2 ^ 52) :: rat) \<le> of_int n" using n(1) by (simp only: of_int_le_iff)
    then have lo: "(2::rat) ^ 52 \<le> of_int n" by simp
    have "(of_int n :: rat) < of_int (2 ^ 53)" using lt by (simp only: of_int_less_iff)
    then have hi: "(of_int n :: rat) < 2 ^ 53" by simp
    have e1: "(2::rat) powi (e + 52) = 2 ^ 52 * ?p" using powi_shift [of e 52] by simp
    have e2: "(2::rat) powi (e + 52 + 1) = 2 ^ 53 * ?p" using powi_shift [of e 53] by (simp add: ac_simps)
    have ex: "exponentOf ?y = e + 52"
    proof (rule exponentOf_unique [OF y0])
      show "2 powi (e + 52) \<le> \<bar>?y\<bar>" unfolding ay e1 using lo p by (intro mult_right_mono) simp_all
      show "\<bar>?y\<bar> < 2 powi (e + 52 + 1)" unfolding ay e2 using hi p by (intro mult_strict_right_mono) simp_all
    qed
    have ee: "exponentOf ?y - 52 = e" using ex by simp
    have qq: "\<bar>?y\<bar> / ?p = of_int n" using ay p by simp
    show ?thesis
      by (subst double_unfold [OF y0]) (simp only: ee qq roundHalfEven_of_int sy)
  next
    case True
    have e1: "(2::rat) powi (e + 53) = 2 ^ 53 * ?p" using powi_shift [of e 53] by simp
    have e2: "(2::rat) powi (e + 53 + 1) = 2 ^ 54 * ?p" using powi_shift [of e 54] by (simp add: ac_simps)
    have e3: "(2::rat) powi (e + 1) = 2 * ?p" using powi_shift [of e 1] by simp
    have ay': "\<bar>?y\<bar> = 2 ^ 53 * ?p" using ay True by simp
    have ex: "exponentOf ?y = e + 53"
    proof (rule exponentOf_unique [OF y0])
      show "2 powi (e + 53) \<le> \<bar>?y\<bar>" unfolding ay' e1 by simp
      show "\<bar>?y\<bar> < 2 powi (e + 53 + 1)" unfolding ay' e2 using p by (intro mult_strict_right_mono) simp_all
    qed
    have ee: "exponentOf ?y - 52 = e + 1" using ex by simp
    have qq: "\<bar>?y\<bar> / 2 powi (e + 1) = of_int (2 ^ 52)" unfolding ay' e3 using p by simp
    have "double ?y = sgn ?y * of_int (2 ^ 52) * 2 powi (e + 1)"
      by (subst double_unfold [OF y0]) (simp only: ee qq roundHalfEven_of_int)
    then show ?thesis using sy True e3 by simp
  qed
qed

lemma double_idem [simp]: "double (double x) = double x"
proof (cases "x = 0")
  case True
  then show ?thesis by simp
next
  case False
  let ?e = "exponentOf x - 52"
  let ?p = "(2::rat) powi ?e"
  let ?q = "\<bar>x\<bar> / ?p"
  let ?n = "roundHalfEven ?q"
  have p: "0 < ?p" by (simp add: zero_less_power_int)
  have dx: "double x = sgn x * of_int ?n * ?p" using False by (simp add: double_def Let_def)
  have pe: "(2::rat) powi (exponentOf x) = 2 ^ 52 * ?p"
    using powi_shift [of ?e 52] by simp
  have pe1: "(2::rat) powi (exponentOf x + 1) = 2 ^ 53 * ?p"
    using powi_shift [of ?e 53] by (simp add: add.commute)
  have "2 ^ 52 * ?p \<le> \<bar>x\<bar>" using exponentOf_le [OF False] pe by simp
  then have lo: "of_int (2 ^ 52) \<le> ?q" using p by (simp add: le_divide_eq)
  have "\<bar>x\<bar> < 2 ^ 53 * ?p" using exponentOf_gt [OF False] pe1 by simp
  then have hi: "?q < of_int (2 ^ 53)" using p by (simp add: divide_less_eq)
  have n: "2 ^ 52 \<le> ?n" "?n \<le> 2 ^ 53"
    using roundHalfEven_ge [OF lo] roundHalfEven_le [OF hi] by simp_all
  have s: "sgn x = 1 \<or> sgn x = - 1" using False by (auto simp: sgn_if)
  show ?thesis unfolding dx using double_scaled [OF n s] .
qed

section \<open>Properties of the classifier\<close>

lemma double_pos: "0 < x \<Longrightarrow> 0 < double x"
proof -
  assume x: "0 < x"
  then have "x * (1 - 1 / 2 ^ 53) \<le> double x" by (intro double_lower) simp
  moreover have "0 < x * (1 - 1 / 2 ^ 53)" using x by (intro mult_pos_pos) simp_all
  ultimately show ?thesis by linarith
qed

lemma clamp_bounds: "lo \<le> hi \<Longrightarrow> lo \<le> min hi (max lo x) \<and> min hi (max lo x) \<le> (hi::rat)"
  by auto

lemma literal_bounds:
  "3 / 10 * (1 - 1 / 2 ^ 53) \<le> double (3 / 10)" "double (3 / 10) \<le> 3 / 10 * (1 + 1 / 2 ^ 53)"
  "95 / 100 * (1 - 1 / 2 ^ 53) \<le> double (95 / 100)" "double (95 / 100) \<le> 95 / 100 * (1 + 1 / 2 ^ 53)"
  by (intro double_lower double_upper; simp)+

lemma low_le_high: "double (3 / 10) \<le> double (95 / 100)"
proof -
  have "(3 / 10 * (1 + 1 / 2 ^ 53) :: rat) \<le> 95 / 100 * (1 - 1 / 2 ^ 53)" by simp
  then show ?thesis using literal_bounds(2,3) by linarith
qed

lemma rawConfidence_bounds:
  "double (3 / 10) \<le> rawConfidence sc \<and> rawConfidence sc \<le> double (95 / 100)"
  unfolding rawConfidence_def Let_def by (rule clamp_bounds) (rule low_le_high)

lemma two_decimals_bounds:
  assumes "30 \<le> n" "n \<le> 95"
  shows "double (3 / 10) \<le> double (of_int n / 100) \<and> double (of_int n / 100) \<le> double (95 / 100)"
proof
  show "double (3 / 10) \<le> double (of_int n / 100)"
  proof (cases "n = 30")
    case True
    then show ?thesis by simp
  next
    case False
    then have "31 \<le> n" using assms(1) by simp
    then have n: "(31::rat) \<le> of_int n" by linarith
    then have "of_int n / 100 * (1 - 1 / 2 ^ 53) \<le> double (of_int n / 100)"
      by (intro double_lower) simp
    moreover have "(31::rat) / 100 * (1 - 1 / 2 ^ 53) \<le> of_int n / 100 * (1 - 1 / 2 ^ 53)"
      using n by (intro mult_right_mono divide_right_mono) simp_all
    moreover have "(3 / 10 * (1 + 1 / 2 ^ 53) :: rat) \<le> 31 / 100 * (1 - 1 / 2 ^ 53)" by simp
    ultimately show ?thesis using literal_bounds(2) by linarith
  qed
  show "double (of_int n / 100) \<le> double (95 / 100)"
  proof (cases "n = 95")
    case True
    then show ?thesis by simp
  next
    case False
    then have "n \<le> 94" using assms(2) by simp
    then have n: "of_int n \<le> (94::rat)" by linarith
    have n0: "(0::rat) \<le> of_int n" using assms(1) by linarith
    then have "double (of_int n / 100) \<le> of_int n / 100 * (1 + 1 / 2 ^ 53)"
      by (intro double_upper) simp
    moreover have "of_int n / 100 * (1 + 1 / 2 ^ 53) \<le> (94::rat) / 100 * (1 + 1 / 2 ^ 53)"
      using n by (intro mult_right_mono divide_right_mono) simp_all
    moreover have "(94 / 100 * (1 + 1 / 2 ^ 53) :: rat) \<le> 95 / 100 * (1 - 1 / 2 ^ 53)" by simp
    ultimately show ?thesis using literal_bounds(3) by linarith
  qed
qed

lemma round2_two_decimals:
  assumes lo: "double (3 / 10) \<le> x" and hi: "x \<le> double (95 / 100)"
  shows "\<exists>n. 30 \<le> n \<and> n \<le> 95 \<and> round2 x = double (of_int n / 100)"
proof -
  let ?y = "double (x * 100)"
  have x0: "0 \<le> x * 100" using lo literal_bounds(1) by simp
  have "x * 100 * (1 - 1 / 2 ^ 53) \<le> ?y" using x0 by (rule double_lower)
  moreover have "3 / 10 * (1 - 1 / 2 ^ 53) * 100 * (1 - 1 / 2 ^ 53) \<le> x * 100 * (1 - 1 / 2 ^ 53)"
    using lo literal_bounds(1) by (intro mult_right_mono) simp_all
  moreover have "(59 / 2 :: rat) \<le> 3 / 10 * (1 - 1 / 2 ^ 53) * 100 * (1 - 1 / 2 ^ 53)" by simp
  ultimately have ylo: "59 / 2 \<le> ?y" by linarith
  have "?y \<le> x * 100 * (1 + 1 / 2 ^ 53)" using x0 by (rule double_upper)
  moreover have "x * 100 * (1 + 1 / 2 ^ 53) \<le> 95 / 100 * (1 + 1 / 2 ^ 53) * 100 * (1 + 1 / 2 ^ 53)"
    using hi literal_bounds(4) by (intro mult_right_mono) simp_all
  moreover have "95 / 100 * (1 + 1 / 2 ^ 53) * 100 * (1 + 1 / 2 ^ 53) < (191 / 2 :: rat)" by simp
  ultimately have yhi: "?y < 191 / 2" by linarith
  have "30 \<le> mathRound ?y" using ylo by (simp add: mathRound_def le_floor_iff)
  moreover have "mathRound ?y \<le> 95" using yhi by (simp add: mathRound_def floor_le_iff)
  ultimately show ?thesis by (auto simp: round2_def)
qed

lemma addKeyword_nonneg:
  assumes "\<And>c. 0 \<le> sc c"
  shows "0 \<le> addKeyword t cat sc kw c"
proof -
  have "0 \<le> double (of_nat (matchCount t kw) * double (2 / 10))"
    by (intro double_nonneg mult_nonneg_nonneg) simp_all
  then have "0 \<le> sc cat + double (of_nat (matchCount t kw) * double (2 / 10))"
    using assms [of cat] by simp
  then have "0 \<le> double (sc cat + double (of_nat (matchCount t kw) * double (2 / 10)))"
    by (rule double_nonneg)
  then show ?thesis using assms [of c] by (simp add: addKeyword_def)
qed

lemma foldl_addKeyword_nonneg:
  "(\<And>c. 0 \<le> sc c) \<Longrightarrow> 0 \<le> foldl (addKeyword t cat) sc kws c"
proof (induction kws arbitrary: sc c)
  case Nil
  then show ?case by simp
next
  case (Cons kw kws)
  have "\<And>c. 0 \<le> addKeyword t cat sc kw c" using Cons.prems by (rule addKeyword_nonneg)
  then have "0 \<le> foldl (addKeyword t cat) (addKeyword t cat sc kw) kws c" by (rule Cons.IH)
  then show ?case by simp
qed

lemma foldl_addCategory_nonneg:
  "(\<And>c. 0 \<le> sc c) \<Longrightarrow> 0 \<le> foldl (addCategory t) sc cats c"
proof (induction cats arbitrary: sc c)
  case Nil
  then show ?case by simp
next
  case (Cons k ks)
  have "\<And>c. 0 \<le> addCategory t sc k c"
    unfolding addCategory_def using Cons.prems by (rule foldl_addKeyword_nonneg)
  then have "0 \<le> foldl (addCategory t) (addCategory t sc k) ks c" by (rule Cons.IH)
  then show ?case by simp
qed

lemma computeScores_nonneg: "0 \<le> computeScores t c"
proof -
  have "\<And>c. 0 \<le> initialScores c"
  proof -
    fix c show "0 \<le> initialScores c" by (cases c) (simp_all add: double_nonneg)
  qed
  then show ?thesis unfolding computeScores_def by (rule foldl_addCategory_nonneg)
qed

lemma denominator_pos:
  "0 < double (sortDesc (map (computeScores t) categoryKeys) ! 0 + double (1 / 10))"
proof -
  let ?s = "sortDesc (map (computeScores t) categoryKeys)"
  have "length ?s = 4" by (simp add: sortDesc_def categoryKeys_def)
  then have "?s ! 0 \<in> set ?s" by (intro nth_mem) simp
  then have "?s ! 0 \<in> set (map (computeScores t) categoryKeys)" by (simp add: sortDesc_def)
  then have "0 \<le> ?s ! 0" using computeScores_nonneg by auto
  moreover have "0 < double (1 / 10)" by (rule double_pos) simp
  ultimately have "0 < ?s ! 0 + double (1 / 10)" by linarith
  then show ?thesis by (rule double_pos)
qed

text \<open>
  Claim C6. For every input text, the empty text included, the classifier in stub mode
  returns a classification whose confidence lies between 0.3 and 0.95 (the doubles these
  literals denote): it is the double of a number with two decimals between 0.30 and
  0.95, and therefore never 0 and never 1. The quotient the confidence is computed from
  has a positive denominator, so no division by zero hides behind the bound.
\<close>

theorem classify_confidence_bounds:
  "\<exists>r. classify True text = Inr r
      \<and> double (3 / 10) \<le> confidence r \<and> confidence r \<le> double (95 / 100)
      \<and> (\<exists>n. 30 \<le> n \<and> n \<le> 95 \<and> confidence r = double (of_int n / 100))
      \<and> 0 < confidence r \<and> confidence r < 1
      \<and> confidence r \<noteq> 0 \<and> confidence r \<noteq> 1
      \<and> 0 < double (sortDesc (map (computeScores (toLowerCase text)) categoryKeys) ! 0
                       + double (1 / 10))"
proof -
  let ?sc = "computeScores (toLowerCase text)"
  obtain cat where cat: "reduceKeys ?sc categoryKeys = Some cat"
    by (simp add: reduceKeys_def categoryKeys_def)
  let ?r = "\<lparr> predictedCategory = cat, confidence = round2 (rawConfidence ?sc) \<rparr>"
  have r: "classify True text = Inr ?r"
    by (simp add: classify_def stubClassify_def Let_def cat)
  from round2_two_decimals [of "rawConfidence ?sc"] rawConfidence_bounds [of ?sc]
  obtain n where n: "30 \<le> n" "n \<le> 95" "round2 (rawConfidence ?sc) = double (of_int n / 100)"
    by blast
  have b: "double (3 / 10) \<le> confidence ?r \<and> confidence ?r \<le> double (95 / 100)"
    using two_decimals_bounds [OF n(1,2)] n(3) by simp
  have "(0::rat) < 3 / 10 * (1 - 1 / 2 ^ 53)" "(95 / 100 * (1 + 1 / 2 ^ 53) :: rat) < 1"
    by simp_all
  then have p: "0 < confidence ?r \<and> confidence ?r < 1"
    using b literal_bounds(1,4) by linarith
  then have ne: "confidence ?r \<noteq> 0 \<and> confidence ?r \<noteq> 1" by auto
  have e: "\<exists>n. 30 \<le> n \<and> n \<le> 95 \<and> confidence ?r = double (of_int n / 100)"
    using n by auto
  from r b e p ne denominator_pos [of "toLowerCase text"] show ?thesis by blast
qed

lemma reduceKeys_max:
  "reduceKeys sc categoryKeys = Some p \<Longrightarrow> sc c \<le> sc p"
  by (cases c) (auto simp: reduceKeys_def categoryKeys_def pickHigher_def split: if_splits)

lemma reduceKeys_last:
  "reduceKeys sc categoryKeys = Some p \<Longrightarrow> sc c = sc p \<Longrightarrow> declaredIndex c \<le> declaredIndex p"
  by (cases c; cases p) (auto simp: reduceKeys_def categoryKeys_def pickHigher_def declaredIndex_def split: if_splits)

text \<open>
  Claim C5, as amended. For every input text the predicted category has the highest
  keyword score, and when several categories tie for the highest score the one declared
  last in the order billing, tech, shipping, other is predicted: every category with
  the same score as the predicted one is declared no later than it. The scores are the
  doubles the source computes.
\<close>

theorem classify_highest_last_declared:
  "\<exists>r. classify True text = Inr r
     \<and> (\<forall>c. computeScores (toLowerCase text) c \<le> computeScores (toLowerCase text) (predictedCategory r))
     \<and> (\<forall>c. computeScores (toLowerCase text) c = computeScores (toLowerCase text) (predictedCategory r)
            \<longrightarrow> declaredIndex c \<le> declaredIndex (predictedCategory r))"
proof -
  let ?sc = "computeScores (toLowerCase text)"
  obtain cat where cat: "reduceKeys ?sc categoryKeys = Some cat"
    by (simp add: reduceKeys_def categoryKeys_def)
  let ?r = "\<lparr> predictedCategory = cat, confidence = round2 (rawConfidence ?sc) \<rparr>"
  have r: "classify True text = Inr ?r"
    by (simp add: classify_def stubClassify_def Let_def cat)
  have "\<forall>c. ?sc c \<le> ?sc (predictedCategory ?r)"
    using reduceKeys_max [OF cat] by simp
  moreover have "\<forall>c. ?sc c = ?sc (predictedCategory ?r) \<longrightarrow> declaredIndex c \<le> declaredIndex (predictedCategory ?r)"
    using reduceKeys_last [OF cat] by simp
  ultimately show ?thesis using r by blast
qed

section \<open>Worked examples of the classifier\<close>

lemma foldl_addKeyword_counts:
  "foldl (addKeyword t cat) sc kws =
     sc(cat := foldl (\<lambda>s m. double (s + double (of_nat m * double (2 / 10)))) (sc cat)
                 (map (matchCount t) kws))"
  by (induction kws arbitrary: sc) (simp_all add: addKeyword_def)

lemma computeScores_counts:
  "computeScores t c =
     foldl (\<lambda>s m. double (s + double (of_nat m * double (2 / 10)))) (initialScores c)
       (map (matchCount t) (keywordTable c))"
  unfolding computeScores_def categoryKeys_def addCategory_def
  by (cases c) (simp_all add: foldl_addKeyword_counts del: keywordTable.simps)

text \<open>
  The values of \<open>double\<close> that the examples need, each computed from the definition.
\<close>

lemma double_values:
  "double (1 / 5854679515581646) = 6928614811339223 / 40564819207303340847894502572032"
  "double (1 / 4503599627370496) = 1 / 4503599627370496"
  "double (1 / 50) = 5764607523034235 / 288230376151711744"
  "double (900719925474099 / 36028797018963968) = 900719925474099 / 36028797018963968"
  "double (1 / 20) = 3602879701896397 / 72057594037927936"
  "double (1 / 10) = 3602879701896397 / 36028797018963968"
  "double (3602879701896397 / 36028797018963968) = 3602879701896397 / 36028797018963968"
  "double (1 / 8) = 1 / 8"
  "double (1 / 5) = 3602879701896397 / 18014398509481984"
  "double (3602879701896397 / 18014398509481984) = 3602879701896397 / 18014398509481984"
  "double (3 / 10) = 5404319552844595 / 18014398509481984"
  "double (10808639105689191 / 36028797018963968) = 1351079888211149 / 4503599627370496"
  "double (3602879701896397 / 9007199254740992) = 3602879701896397 / 9007199254740992"
  "double (1 / 2) = 1 / 2"
  "double (18014398509481987 / 36028797018963968) = 4503599627370497 / 9007199254740992"
  "double (10808639105689191 / 18014398509481984) = 1351079888211149 / 2251799813685248"
  "double (1351079888211149 / 2251799813685248) = 1351079888211149 / 2251799813685248"
  "double (7 / 10) = 3152519739159347 / 4503599627370496"
  "double (25220157913274781 / 36028797018963968) = 6305039478318695 / 9007199254740992"
  "double (71 / 100) = 799388933858263 / 1125899906842624"
  "double (4503599627370497 / 6305039478318695) = 804214219173303 / 1125899906842624"
  "double (3 / 4) = 3 / 4"
  "double (39 / 50) = 3512807709348987 / 4503599627370496"
  "double (14411518807585589 / 18014398509481984) = 3602879701896397 / 4503599627370496"
  "double (9 / 10) = 8106479329266893 / 9007199254740992"
  "double (19 / 20) = 4278419646001971 / 4503599627370496"
  "double (1) = 1"
  "double (18014398509481985 / 18014398509481984) = 1"
  "double (33 / 32) = 33 / 32"
  "double (9 / 8) = 9 / 8"
  "double (113 / 100) = 1272266894732165 / 1125899906842624"
  "double (40757576627702989 / 36028797018963968) = 2547348539231437 / 2251799813685248"
  "double (2547348539231437 / 2251799813685248) = 2547348539231437 / 2251799813685248"
  "double (5404319552844595 / 4503599627370496) = 5404319552844595 / 4503599627370496"
  "double (21617278211378381 / 18014398509481984) = 5404319552844595 / 4503599627370496"
  "double (10808639105689191 / 9007199254740992) = 1351079888211149 / 1125899906842624"
  "double (1351079888211149 / 1125899906842624) = 1351079888211149 / 1125899906842624"
  "double (13 / 10) = 5854679515581645 / 4503599627370496"
  "double (5854679515581645 / 4503599627370496) = 5854679515581645 / 4503599627370496"
  "double (46837436124653165 / 36028797018963968) = 2927339757790823 / 2251799813685248"
  "double (22517998136852475 / 9007199254740992) = 5629499534213119 / 2251799813685248"
  "double (135107988821114875 / 4503599627370496) = 30"
  "double (20105355479332575 / 281474976710656) = 628292358729143 / 8796093022208"
  "double (225 / 2) = 225 / 2"
  "double (63683713480785925 / 562949953421312) = 7960464185098241 / 70368744177664"
  "double (146366987889541125 / 1125899906842624) = 130"
  by code_simp+

lemma mathRound_values:
  "mathRound (5629499534213119 / 2251799813685248) = 2"
  "mathRound (30) = 30"
  "mathRound (628292358729143 / 8796093022208) = 71"
  "mathRound (225 / 2) = 113"
  "mathRound (7960464185098241 / 70368744177664) = 113"
  "mathRound (130) = 130"
  by (simp_all add: mathRound_def floor_eq_iff)

lemma refund_error_counts:
  "map (matchCount (toLowerCase ''refund error'')) (keywordTable Billing) = [1, 0, 0, 0, 0, 0, 0, 0, 0, 0]"
  "map (matchCount (toLowerCase ''refund error'')) (keywordTable Tech) = [1, 0, 0, 0, 0, 0, 0, 0, 0, 0]"
  "map (matchCount (toLowerCase ''refund error'')) (keywordTable Shipping) = [0, 0, 0, 0, 0, 0, 0, 0]"
  "map (matchCount (toLowerCase ''refund error'')) (keywordTable Other) = [0, 0, 0, 0, 0, 0]"
  by code_simp+

lemma refund_error_scores:
  "computeScores (toLowerCase ''refund error'') Billing = double (1 / 5)"
  "computeScores (toLowerCase ''refund error'') Tech = double (1 / 5)"
  "computeScores (toLowerCase ''refund error'') Shipping = 0"
  "computeScores (toLowerCase ''refund error'') Other = double (1 / 10)"
  unfolding computeScores_counts refund_error_counts by simp_all

lemma refund_error_classify:
  "classify True ''refund error'' = Inr \<lparr> predictedCategory = Tech, confidence = double (3 / 10) \<rparr>"
proof -
  let ?sc = "computeScores (toLowerCase ''refund error'')"
  have red: "reduceKeys ?sc categoryKeys = Some Tech"
    by (simp add: reduceKeys_def categoryKeys_def pickHigher_def refund_error_scores double_values)
  have srt: "sortDesc (map ?sc categoryKeys) = [double (1 / 5), double (1 / 5), double (1 / 10), 0]"
    by (simp add: sortDesc_def categoryKeys_def refund_error_scores double_values)
  have raw: "rawConfidence ?sc = double (3 / 10)"
    unfolding rawConfidence_def srt Let_def by (simp add: double_values)
  have "round2 (double (3 / 10)) = double (3 / 10)"
    by (simp add: round2_def double_values mathRound_values)
  then show ?thesis
    by (simp add: classify_def stubClassify_def Let_def red raw)
qed

text \<open>
  Claim C5 as stated fails: for the text "refund error" billing and tech tie for the
  highest score 0.2, billing is declared first, and tech is predicted.
\<close>

theorem classify_tie_counterexample:
  "computeScores (toLowerCase ''refund error'') Billing = double (1 / 5)
   \<and> computeScores (toLowerCase ''refund error'') Tech = double (1 / 5)
   \<and> computeScores (toLowerCase ''refund error'') Shipping = 0
   \<and> computeScores (toLowerCase ''refund error'') Other = double (1 / 10)
   \<and> double (1 / 10) < double (1 / 5)
   \<and> declaredIndex Billing < declaredIndex Tech
   \<and> classify True ''refund error'' = Inr \<lparr> predictedCategory = Tech, confidence = double (3 / 10) \<rparr>"
  by (simp add: refund_error_scores refund_error_classify declaredIndex_def categoryKeys_def)
     (simp add: double_values)

theorem classify_highest_last_declared_witness:
  "computeScores (toLowerCase ''refund error'') Billing = computeScores (toLowerCase ''refund error'') Tech
   \<and> classify True ''refund error'' = Inr \<lparr> predictedCategory = Tech, confidence = double (3 / 10) \<rparr>
   \<and> declaredIndex Billing \<le> declaredIndex Tech"
proof -
  have e: "computeScores (toLowerCase ''refund error'') Billing = computeScores (toLowerCase ''refund error'') Tech"
    by (simp add: refund_error_scores)
  from classify_highest_last_declared [of "''refund error''"] refund_error_classify e
  show ?thesis by auto
qed

text \<open>
  The rounding decides a prediction. Six matches of one billing keyword score
  \<open>6 * 0.2 = 1.2000000000000002\<close>; one match each of six tech keywords scores
  \<open>0.2\<close> added six times, \<open>1.2\<close>. Billing is predicted, although both sums are 1.2
  in exact arithmetic and the later category would win a tie.
\<close>

lemma six_matches_counts:
  "map (matchCount (toLowerCase ''refund refund refund refund refund refund error bug crash broken technical code'')) (keywordTable Billing) = [6, 0, 0, 0, 0, 0, 0, 0, 0, 0]"
  "map (matchCount (toLowerCase ''refund refund refund refund refund refund error bug crash broken technical code'')) (keywordTable Tech) = [1, 1, 1, 1, 1, 1, 0, 0, 0, 0]"
  "map (matchCount (toLowerCase ''refund refund refund refund refund refund error bug crash broken technical code'')) (keywordTable Shipping) = [0, 0, 0, 0, 0, 0, 0, 0]"
  "map (matchCount (toLowerCase ''refund refund refund refund refund refund error bug crash broken technical code'')) (keywordTable Other) = [0, 0, 0, 0, 0, 0]"
  by code_simp+

lemma six_matches_prediction:
  "computeScores (toLowerCase ''refund refund refund refund refund refund error bug crash broken technical code'') Billing = 1351079888211149 / 1125899906842624
   \<and> computeScores (toLowerCase ''refund refund refund refund refund refund error bug crash broken technical code'') Tech = 5404319552844595 / 4503599627370496
   \<and> (5404319552844595 / 4503599627370496 :: rat) < 1351079888211149 / 1125899906842624
   \<and> (\<exists>c. classify True ''refund refund refund refund refund refund error bug crash broken technical code'' = Inr \<lparr> predictedCategory = Billing, confidence = c \<rparr>)"
proof -
  let ?sc = "computeScores (toLowerCase ''refund refund refund refund refund refund error bug crash broken technical code'')"
  have b: "?sc Billing = 1351079888211149 / 1125899906842624"
    unfolding computeScores_counts six_matches_counts by (simp add: double_values)
  have t: "?sc Tech = 5404319552844595 / 4503599627370496"
    unfolding computeScores_counts six_matches_counts by (simp add: double_values)
  have s: "?sc Shipping = 0"
    unfolding computeScores_counts six_matches_counts by simp
  have o: "?sc Other = 3602879701896397 / 36028797018963968"
    unfolding computeScores_counts six_matches_counts by (simp add: double_values)
  have "reduceKeys ?sc categoryKeys = Some Billing"
    by (simp add: reduceKeys_def categoryKeys_def pickHigher_def b t s o)
  then have "\<exists>c. classify True ''refund refund refund refund refund refund error bug crash broken technical code'' = Inr \<lparr> predictedCategory = Billing, confidence = c \<rparr>"
    by (simp add: classify_def stubClassify_def Let_def)
  with b t show ?thesis by simp
qed

lemma example_counts:
  "map (matchCount (toLowerCase (t_title exampleTicket @ [CHR 0x0A, CHR 0x0A] @ t_description exampleTicket))) (keywordTable Billing) = [1, 0, 0, 2, 0, 0, 0, 0, 0, 0]"
  "map (matchCount (toLowerCase (t_title exampleTicket @ [CHR 0x0A, CHR 0x0A] @ t_description exampleTicket))) (keywordTable Tech) = [0, 0, 0, 0, 0, 0, 0, 0, 0, 0]"
  "map (matchCount (toLowerCase (t_title exampleTicket @ [CHR 0x0A, CHR 0x0A] @ t_description exampleTicket))) (keywordTable Shipping) = [0, 0, 0, 0, 0, 0, 0, 0]"
  "map (matchCount (toLowerCase (t_title exampleTicket @ [CHR 0x0A, CHR 0x0A] @ t_description exampleTicket))) (keywordTable Other) = [0, 0, 0, 0, 0, 0]"
  by code_simp+

lemma example_classify:
  "classify (stubMode (exampleEnv store)) (t_title exampleTicket @ [CHR 0x0A, CHR 0x0A] @ t_description exampleTicket)
     = Inr \<lparr> predictedCategory = Billing, confidence = double (71 / 100) \<rparr>"
proof -
  define sc where "sc = computeScores (toLowerCase (t_title exampleTicket @ [CHR 0x0A, CHR 0x0A] @ t_description exampleTicket))"
  have b: "sc Billing = 1351079888211149 / 2251799813685248"
    unfolding sc_def computeScores_counts example_counts by (simp add: double_values)
  have t: "sc Tech = 0" "sc Shipping = 0"
    unfolding sc_def computeScores_counts example_counts by simp_all
  have o: "sc Other = 3602879701896397 / 36028797018963968"
    unfolding sc_def computeScores_counts example_counts by (simp add: double_values)
  have red: "reduceKeys sc categoryKeys = Some Billing"
    by (simp add: reduceKeys_def categoryKeys_def pickHigher_def b t o)
  have srt: "sortDesc (map sc categoryKeys)
               = [1351079888211149 / 2251799813685248, 3602879701896397 / 36028797018963968, 0, 0]"
    by (simp add: sortDesc_def categoryKeys_def b t o)
  have raw: "rawConfidence sc = 804214219173303 / 1125899906842624"
    unfolding rawConfidence_def srt Let_def by (simp add: double_values)
  have r2: "round2 (804214219173303 / 1125899906842624) = double (71 / 100)"
    by (simp add: round2_def double_values mathRound_values)
  have st: "stubMode (exampleEnv store)" by (simp add: exampleEnv_def)
  show ?thesis
    unfolding classify_def stubClassify_def Let_def sc_def [symmetric]
    by (simp only: st red raw r2 if_True option.case)
qed

lemma example_numbers:
  "double (7 / 10) < double (71 / 100)" "double (71 / 100) < double (9 / 10)"
  "(5 / 10 :: rat) \<le> double (71 / 100)"
  by (simp_all add: double_values)

text \<open>
  A quotient just below a half hundredth: with scores 0.7 for other and 0.4 for billing
  the quotient \<open>(0.7 - 0.4) / (0.7 + 0.1)\<close> is 0.37499999999999994, not 0.375, and the
  confidence is 0.37.
\<close>

lemma half_hundredth_values:
  "double (2702159776422297 / 9007199254740992) = 2702159776422297 / 9007199254740992"
  "double (37 / 100) = 3332663724254167 / 9007199254740992"
  "double (2702159776422297 / 7205759403792793) = 6755399441055743 / 18014398509481984"
  "double (19 / 50) = 3422735716801577 / 9007199254740992"
  "double (9007199254740993 / 18014398509481984) = 1 / 2"
  "double (3152519739159347 / 4503599627370496) = 3152519739159347 / 4503599627370496"
  "double (12610078956637389 / 18014398509481984) = 3152519739159347 / 4503599627370496"
  "double (28823037615171173 / 36028797018963968) = 7205759403792793 / 9007199254740992"
  "double (168884986026393575 / 4503599627370496) = 5277655813324799 / 140737488355328"
  by code_simp+

lemma half_hundredth_rounds:
  "mathRound (5277655813324799 / 140737488355328) = 37"
  by (simp_all add: mathRound_def floor_eq_iff)

lemma half_hundredth_counts:
  "map (matchCount (toLowerCase ''general question help refund invoice'')) (keywordTable Billing) = [1, 1, 0, 0, 0, 0, 0, 0, 0, 0]"
  "map (matchCount (toLowerCase ''general question help refund invoice'')) (keywordTable Tech) = [0, 0, 0, 0, 0, 0, 0, 0, 0, 0]"
  "map (matchCount (toLowerCase ''general question help refund invoice'')) (keywordTable Shipping) = [0, 0, 0, 0, 0, 0, 0, 0]"
  "map (matchCount (toLowerCase ''general question help refund invoice'')) (keywordTable Other) = [1, 1, 1, 0, 0, 0]"
  by code_simp+

lemma half_hundredth_classify:
  "classify True ''general question help refund invoice''
     = Inr \<lparr> predictedCategory = Other, confidence = double (37 / 100) \<rparr>"
  "double (37 / 100) < double (38 / 100)"
proof -
  define sc where "sc = computeScores (toLowerCase ''general question help refund invoice'')"
  have b: "sc Billing = 3602879701896397 / 9007199254740992"
    unfolding sc_def computeScores_counts half_hundredth_counts
    by (simp add: double_values half_hundredth_values)
  have t: "sc Tech = 0" "sc Shipping = 0"
    unfolding sc_def computeScores_counts half_hundredth_counts by simp_all
  have o: "sc Other = 3152519739159347 / 4503599627370496"
    unfolding sc_def computeScores_counts half_hundredth_counts
    by (simp add: double_values half_hundredth_values)
  have red: "reduceKeys sc categoryKeys = Some Other"
    by (simp add: reduceKeys_def categoryKeys_def pickHigher_def b t o)
  have srt: "sortDesc (map sc categoryKeys)
               = [3152519739159347 / 4503599627370496, 3602879701896397 / 9007199254740992, 0, 0]"
    by (simp add: sortDesc_def categoryKeys_def b t o)
  have raw: "rawConfidence sc = 6755399441055743 / 18014398509481984"
    unfolding rawConfidence_def srt Let_def by (simp add: double_values half_hundredth_values)
  have r2: "round2 (6755399441055743 / 18014398509481984) = double (37 / 100)"
    by (simp add: round2_def double_values half_hundredth_values half_hundredth_rounds)
  show "classify True ''general question help refund invoice''
     = Inr \<lparr> predictedCategory = Other, confidence = double (37 / 100) \<rparr>"
    unfolding classify_def stubClassify_def Let_def sc_def [symmetric]
    by (simp only: red raw r2 if_True option.case)
  show "double (37 / 100) < double (38 / 100)"
    by (simp add: half_hundredth_values)
qed

section \<open>Properties of the composer and the retriever\<close>

lemma stubClassify_total: "\<exists>c. stubClassify text = Some c"
  by (simp add: stubClassify_def reduceKeys_def categoryKeys_def Let_def)

text \<open>
  Claim C9. For every composer input (ticket text, articles) the composer in stub mode
  returns a draft whose citations are the identifiers of the first three articles passed
  in: every cited identifier appears in the articles list, and there are at most three
  citations, the limit of the retrieval.
\<close>

theorem draft_citations_subset:
  "\<exists>d. draft True ticketText articles = Inr d
      \<and> citations d = (case articles of None \<Rightarrow> [] | Some as \<Rightarrow> map a_id (take 3 as))
      \<and> set (citations d) \<subseteq> (case articles of None \<Rightarrow> {} | Some as \<Rightarrow> set (map a_id as))
      \<and> length (citations d) \<le> 3"
proof -
  obtain c where c: "stubClassify ticketText = Some c"
    using stubClassify_total by blast
  then obtain d where d: "stubDraft ticketText articles = Some d"
    by (simp add: stubDraft_def Let_def)
  have cit: "citations d = (case articles of None \<Rightarrow> [] | Some as \<Rightarrow> map a_id (take 3 as))"
    using d c by (auto simp: stubDraft_def Let_def)
  have sub: "set (citations d) \<subseteq> (case articles of None \<Rightarrow> {} | Some as \<Rightarrow> set (map a_id as))"
  proof (cases articles)
    case None
    then show ?thesis using cit by simp
  next
    case (Some as)
    have "set (take 3 as) \<subseteq> set as" by (rule set_take_subset)
    then show ?thesis using cit Some by auto
  qed
  have len: "length (citations d) \<le> 3"
    using cit by (cases articles) simp_all
  have "draft True ticketText articles = Inr d"
    by (simp add: draft_def d)
  with cit sub len show ?thesis by blast
qed









subsection \<open>Worked examples of the retriever\<close>


lemma refunds_matches:
  "countMatches (a_title refundPolicy) [''refunds''] = 0"
  "countMatches (a_body refundPolicy) [''refunds''] = 0"
  "tagMatches (a_tags refundPolicy) [''refunds''] = 0"
  "countMatches (a_title refundStatus) [''refunds''] = 0"
  "countMatches (a_body refundStatus) [''refunds''] = 0"
  "tagMatches (a_tags refundStatus) [''refunds''] = 0"
  "countMatches (a_title refundForm) [''refunds''] = 0"
  "countMatches (a_body refundForm) [''refunds''] = 0"
  "tagMatches (a_tags refundForm) [''refunds''] = 0"
  "countMatches (a_title oldFaq) [''refunds''] = 0"
  "countMatches (a_body oldFaq) [''refunds''] = 0"
  "tagMatches (a_tags oldFaq) [''refunds''] = 0"
  by code_simp+

lemma refunds_composite:
  "compositeScore [''refunds''] refundPolicy = 9 / 8"
  "compositeScore [''refunds''] refundStatus = 2547348539231437 / 2251799813685248"
  "compositeScore [''refunds''] refundForm = 5854679515581645 / 4503599627370496"
  "compositeScore [''refunds''] oldFaq = 900719925474099 / 36028797018963968"
  unfolding compositeScore_def Let_def refunds_matches
  by (simp_all add: refundPolicy_def refundStatus_def refundForm_def oldFaq_def orZero_def
        double_values)

lemma refunds_scored:
  "scoreArticle [''refunds''] refundPolicy = refundPolicy\<lparr>a_relevanceScore := Some (double (113 / 100))\<rparr>"
  "scoreArticle [''refunds''] refundStatus = refundStatus\<lparr>a_relevanceScore := Some (double (113 / 100))\<rparr>"
  "scoreArticle [''refunds''] refundForm = refundForm\<lparr>a_relevanceScore := Some (double (13 / 10))\<rparr>"
  "scoreArticle [''refunds''] oldFaq = oldFaq\<lparr>a_relevanceScore := Some (double (1 / 50))\<rparr>"
  unfolding scoreArticle_def refunds_composite
  by (simp_all add: round2_def double_values mathRound_values)

lemma refunds_spec:
  "specRelevance [''refunds''] refundPolicy = 9 / 8"
  "specRelevance [''refunds''] refundStatus = 181 / 160"
  "specRelevance [''refunds''] refundForm = 13 / 10"
  "specRelevance [''refunds''] oldFaq = 1 / 40"
  unfolding specRelevance_def refunds_matches
  by (simp_all add: refundPolicy_def refundStatus_def refundForm_def oldFaq_def orZero_def)









text \<open>
  The steps of the composite score are rounded one by one. An article with a text score
  of 0.125 and two not-helpful votes has the composite score 0.024999999999999994 and the
  relevance score 0.02; the formula in exact arithmetic gives 0.025, which rounds to 0.03.
\<close>

lemma oldFaq_relevance:
  "a_relevanceScore (scoreArticle [''refunds''] oldFaq) = Some (double (2 / 100))"
  "compositeScore [''refunds''] oldFaq < 25 / 1000"
  "specRelevance [''refunds''] oldFaq = 25 / 1000"
  "double (of_int (mathRound (double (specRelevance [''refunds''] oldFaq * 100))) / 100) = double (3 / 100)"
  "double (2 / 100) < double (3 / 100)"
proof -
  have d: "double (5 / 2) = 5 / 2" "double (3 / 100) = 1080863910568919 / 36028797018963968"
    by code_simp+
  have m: "mathRound (5 / 2) = 3"
    by (simp add: mathRound_def floor_eq_iff)
  show "a_relevanceScore (scoreArticle [''refunds''] oldFaq) = Some (double (2 / 100))"
    by (simp add: refunds_scored)
  show "compositeScore [''refunds''] oldFaq < 25 / 1000"
    by (simp add: refunds_composite)
  show "specRelevance [''refunds''] oldFaq = 25 / 1000"
    by (simp add: refunds_spec)
  show "double (of_int (mathRound (double (specRelevance [''refunds''] oldFaq * 100))) / 100) = double (3 / 100)"
    by (simp add: refunds_spec d m)
  show "double (2 / 100) < double (3 / 100)"
    by (simp add: double_values d)
qed

section \<open>The steps of a triage run\<close>

lemma logAuditEvent_fields [simp]:
  "tickets (logAuditEvent env db i t a ac m) = tickets db"
  "suggestions (logAuditEvent env db i t a ac m) = suggestions db"
  "users (logAuditEvent env db i t a ac m) = users db"
  "configs (logAuditEvent env db i t a ac m) = configs db"
  "auditLogs (logAuditEvent env db i t a ac m) =
     auditLogs db @ [\<lparr> l_ticketId = i, l_traceId = t, l_actor = a, l_action = ac, l_meta = m,
                        l_timestamp = now env \<rparr>]"
  by (simp_all add: logAuditEvent_def newAuditLog_def)

lemma findById_key: "findById key i ds = Some d \<Longrightarrow> key d = i"
  by (auto simp: findById_def find_Some_iff)

lemma findById_saveDoc: "findById key (key d) (saveDoc key d ds) = Some d"
  by (induction ds) (auto simp: findById_def)


lemma planWorkflow_Inl:
  "planWorkflow env db tid trace = (Inl e, db1) \<Longrightarrow> e = TicketNotFound \<and> db1 = db"
  by (auto simp: planWorkflow_def split: option.splits)

lemma planWorkflow_Inr:
  "planWorkflow env db tid trace = (Inr tk, db1) \<Longrightarrow>
     findById t_id tid (tickets db) = Some tk \<and> t_id tk = tid
     \<and> db1 = logAuditEvent env db tid trace SystemActor TRIAGE_STARTED
               [(''ticketTitle'', MString (t_title tk)), (''category'', MCategory (t_category tk))]"
  by (auto simp: planWorkflow_def findById_key split: option.splits)

lemma classify_Inl: "classify stub text = Inl e \<Longrightarrow> e = ClassificationUnavailable"
  by (auto simp: classify_def split: if_splits option.splits)

lemma searchArticles_Inl: "searchArticles store q n cat st = Inl e \<Longrightarrow> e = KnowledgeBaseUnavailable"
  by (auto simp: searchArticles_def Let_def split: if_splits option.splits)

lemma draft_Inl: "draft stub text as = Inl e \<Longrightarrow> e = DraftUnavailable"
  by (auto simp: draft_def split: if_splits option.splits)

lemma classifyTicket_Inl:
  "classifyTicket env db tk trace = (Inl e, db1) \<Longrightarrow> e = ClassificationUnavailable \<and> db1 = db"
  by (auto simp: classifyTicket_def Let_def dest: classify_Inl split: sum.splits if_splits)

lemma classifyTicket_Inr:
  assumes "classifyTicket env db tk trace = (Inr (c, tk1), db1)"
  shows "classify (stubMode env) (t_title tk @ [CHR 0x0A, CHR 0x0A] @ t_description tk) = Inr c"
    and "tk1 = (if predictedCategory c \<noteq> t_category tk \<and> confidence c > double (7 / 10)
                then tk\<lparr>t_category := predictedCategory c\<rparr> else tk)"
    and "tickets db1 = (if predictedCategory c \<noteq> t_category tk \<and> confidence c > double (7 / 10)
                        then saveDoc t_id tk1 (tickets db) else tickets db)"
    and "suggestions db1 = suggestions db" and "users db1 = users db" and "configs db1 = configs db"
    and "auditLogs db1 = auditLogs db @
           [\<lparr> l_ticketId = t_id tk, l_traceId = trace, l_actor = SystemActor,
              l_action = AGENT_CLASSIFIED,
              l_meta = [(''originalCategory'', MCategory (t_category tk)),
                        (''predictedCategory'', MCategory (predictedCategory c)),
                        (''confidence'', MNumber (confidence c))],
              l_timestamp = now env \<rparr>]"
  using assms by (auto simp: classifyTicket_def Let_def split: sum.splits if_splits)

lemma retrieveKnowledge_Inl:
  "retrieveKnowledge env db tk c trace = (Inl e, db1) \<Longrightarrow> e = KnowledgeBaseUnavailable \<and> db1 = db"
  by (auto simp: retrieveKnowledge_def Let_def dest: searchArticles_Inl split: sum.splits)

lemma retrieveKnowledge_Inr:
  assumes "retrieveKnowledge env db tk c trace = (Inr articles, db1)"
  shows "searchArticles (articleDb env) (t_title tk @ '' '' @ t_description tk) 3
           (Some (predictedCategory c)) Published = Inr articles"
    and "db1 = logAuditEvent env db (t_id tk) trace SystemActor KB_RETRIEVED
                 [(''query'', MString (take 100 (t_title tk @ '' '' @ t_description tk))),
                  (''articlesFound'', MNumber (of_nat (length articles))),
                  (''articleIds'', MIds (map a_id articles)),
                  (''category'', MCategory (predictedCategory c))]"
  using assms by (auto simp: retrieveKnowledge_def Let_def split: sum.splits)

lemma draftReplyStep_Inl:
  "draftReplyStep env db tk articles trace = (Inl e, db1) \<Longrightarrow> e = DraftUnavailable \<and> db1 = db"
  by (auto simp: draftReplyStep_def Let_def dest: draft_Inl split: sum.splits)

lemma draftReplyStep_Inr:
  assumes "draftReplyStep env db tk articles trace = (Inr d, db1)"
  shows "draft (stubMode env) (t_title tk @ [CHR 0x0A, CHR 0x0A] @ t_description tk) (Some articles) = Inr d"
    and "db1 = logAuditEvent env db (t_id tk) trace SystemActor DRAFT_GENERATED
                 [(''draftLength'', MNumber (of_nat (length (draftReply d)))),
                  (''citationsCount'', MNumber (of_nat (length (citations d)))),
                  (''citations'', MIds (citations d))]"
  using assms by (auto simp: draftReplyStep_def Let_def split: sum.splits)

lemma getConfig_fields [simp]:
  "tickets (snd (getConfig db)) = tickets db"
  "suggestions (snd (getConfig db)) = suggestions db"
  "users (snd (getConfig db)) = users db"
  "auditLogs (snd (getConfig db)) = auditLogs db"
  by (simp_all add: getConfig_def split: list.splits)

lemma getSystemUser_fields [simp]:
  "tickets (snd (getSystemUser env db)) = tickets db"
  "suggestions (snd (getSystemUser env db)) = suggestions db"
  "configs (snd (getSystemUser env db)) = configs db"
  "auditLogs (snd (getSystemUser env db)) = auditLogs db"
  by (simp_all add: getSystemUser_def split: option.splits)

lemma autoClose_effect:
  assumes "autoClose env db cfg tk c d sg trace = ((dec, tk1), db')"
  shows "dec = \<lparr> d_action = AutoClosed, d_suggestion = sg\<lparr>s_autoClosed := True\<rparr>, d_assignee = None \<rparr>"
    and "tk1 = tk\<lparr> t_replies := t_replies tk @
                     [\<lparr> r_author = fst (getSystemUser env (db\<lparr>suggestions := saveDoc s_id (sg\<lparr>s_autoClosed := True\<rparr>) (suggestions db)\<rparr>)),
                        r_content = draftReply d, r_isInternal = False \<rparr>],
                   t_status := Resolved, t_agentSuggestionId := Some (s_id sg),
                   t_resolvedAt := Some (now env) \<rparr>"
    and "tickets db' = saveDoc t_id tk1 (tickets db)"
    and "suggestions db' = saveDoc s_id (sg\<lparr>s_autoClosed := True\<rparr>) (suggestions db)"
    and "configs db' = configs db"
    and "auditLogs db' = auditLogs db @
           [\<lparr> l_ticketId = t_id tk, l_traceId = trace, l_actor = SystemActor, l_action = AUTO_CLOSED,
              l_meta = [(''confidence'', MNumber (confidence c)),
                        (''threshold'', MNumber (confidenceThreshold cfg)),
                        (''suggestionId'', MId (s_id sg))],
              l_timestamp = now env \<rparr>]"
proof -
  let ?db1 = "db\<lparr>suggestions := saveDoc s_id (sg\<lparr>s_autoClosed := True\<rparr>) (suggestions db)\<rparr>"
  obtain su db2 where su: "getSystemUser env ?db1 = (su, db2)" by (cases "getSystemUser env ?db1")
  have f: "tickets db2 = tickets db" "suggestions db2 = suggestions ?db1"
          "configs db2 = configs db" "auditLogs db2 = auditLogs db"
    using getSystemUser_fields [of env ?db1] su by simp_all
  from assms su show "dec = \<lparr> d_action = AutoClosed, d_suggestion = sg\<lparr>s_autoClosed := True\<rparr>, d_assignee = None \<rparr>"
    by (auto simp: autoClose_def Let_def)
  from assms su show tk1: "tk1 = tk\<lparr> t_replies := t_replies tk @
                     [\<lparr> r_author = fst (getSystemUser env ?db1),
                        r_content = draftReply d, r_isInternal = False \<rparr>],
                   t_status := Resolved, t_agentSuggestionId := Some (s_id sg),
                   t_resolvedAt := Some (now env) \<rparr>"
    by (auto simp: autoClose_def Let_def)
  from assms su f show "tickets db' = saveDoc t_id tk1 (tickets db)"
    by (auto simp: autoClose_def Let_def)
  from assms su f show "suggestions db' = saveDoc s_id (sg\<lparr>s_autoClosed := True\<rparr>) (suggestions db)"
    by (auto simp: autoClose_def Let_def)
  from assms su f show "configs db' = configs db"
    by (auto simp: autoClose_def Let_def)
  from assms su f show "auditLogs db' = auditLogs db @
           [\<lparr> l_ticketId = t_id tk, l_traceId = trace, l_actor = SystemActor, l_action = AUTO_CLOSED,
              l_meta = [(''confidence'', MNumber (confidence c)),
                        (''threshold'', MNumber (confidenceThreshold cfg)),
                        (''suggestionId'', MId (s_id sg))],
              l_timestamp = now env \<rparr>]"
    by (auto simp: autoClose_def Let_def)
qed

lemma assignToHuman_effect:
  assumes "assignToHuman env db tk c d sg trace = ((dec, tk1), db')"
  shows "d_action dec = AssignedToHuman"
    and "d_suggestion dec = sg"
    and "t_category tk1 = t_category tk"
    and "t_id tk1 = t_id tk"
    and "tickets db' = saveDoc t_id tk1 (tickets db)"
    and "\<exists>m1 m2. auditLogs db' = auditLogs db @
           [\<lparr> l_ticketId = t_id tk, l_traceId = trace, l_actor = SystemActor,
              l_action = ASSIGNED_TO_HUMAN, l_meta = m1, l_timestamp = now env \<rparr>,
            \<lparr> l_ticketId = t_id tk, l_traceId = trace, l_actor = SystemActor,
              l_action = REPLY_SENT, l_meta = m2, l_timestamp = now env \<rparr>]"
proof -
  let ?db1 = "db\<lparr>suggestions := saveDoc s_id sg (suggestions db)\<rparr>"
  obtain su db2 where su: "getSystemUser env ?db1 = (su, db2)" by (cases "getSystemUser env ?db1")
  have f: "tickets db2 = tickets db" "auditLogs db2 = auditLogs db"
    using getSystemUser_fields [of env ?db1] su by simp_all
  from assms su show "d_action dec = AssignedToHuman" "d_suggestion dec = sg"
    by (auto simp: assignToHuman_def Let_def)
  from assms su show "t_category tk1 = t_category tk" "t_id tk1 = t_id tk"
    by (auto simp: assignToHuman_def Let_def split: option.splits)
  from assms su f show "tickets db' = saveDoc t_id tk1 (tickets db)"
    by (auto simp: assignToHuman_def Let_def)
  from assms su f show "\<exists>m1 m2. auditLogs db' = auditLogs db @
           [\<lparr> l_ticketId = t_id tk, l_traceId = trace, l_actor = SystemActor,
              l_action = ASSIGNED_TO_HUMAN, l_meta = m1, l_timestamp = now env \<rparr>,
            \<lparr> l_ticketId = t_id tk, l_traceId = trace, l_actor = SystemActor,
              l_action = REPLY_SENT, l_meta = m2, l_timestamp = now env \<rparr>]"
    by (auto simp: assignToHuman_def Let_def)
qed

lemma makeDecision_cases:
  assumes "makeDecision env db tk c articles d trace = ((dec, tk1), db')"
  shows "(shouldAutoClose (fst (getConfig db)) c
            \<and> autoClose env (snd (getConfig db)) (fst (getConfig db)) tk c d
                 (newSuggestion env tk c articles d trace) trace = ((dec, tk1), db'))
       \<or> (\<not> shouldAutoClose (fst (getConfig db)) c
            \<and> assignToHuman env (snd (getConfig db)) tk c d
                 (newSuggestion env tk c articles d trace) trace = ((dec, tk1), db'))"
  using assms by (auto simp: makeDecision_def Let_def split: prod.splits if_splits)

lemma executePlan_Inr:
  assumes "executePlan env db tk trace = (Inr r, db')"
  shows "\<exists>c tk1 db1 articles db2 d db3.
           classifyTicket env db tk trace = (Inr (c, tk1), db1)
         \<and> retrieveKnowledge env db1 tk1 c trace = (Inr articles, db2)
         \<and> draftReplyStep env db2 tk1 articles trace = (Inr d, db3)
         \<and> makeDecision env db3 tk1 c articles d trace = ((tr_decision r, tr_ticket r), db')
         \<and> tr_classification r = c \<and> tr_articles r = articles \<and> tr_draft r = d"
  using assms unfolding executePlan_def
  by (auto split: prod.splits sum.splits)

lemma executePlan_Inl:
  assumes "executePlan env db tk trace = (Inl e, db')"
  shows "classifyTicket env db tk trace = (Inl e, db')
       \<or> (\<exists>c tk1 db1. classifyTicket env db tk trace = (Inr (c, tk1), db1)
             \<and> (retrieveKnowledge env db1 tk1 c trace = (Inl e, db')
                \<or> (\<exists>articles db2. retrieveKnowledge env db1 tk1 c trace = (Inr articles, db2)
                      \<and> draftReplyStep env db2 tk1 articles trace = (Inl e, db'))))"
  using assms unfolding executePlan_def
  by (auto split: prod.splits sum.splits)

lemma triageTicket_Inr:
  assumes "triageTicket env db tid tr = (Inr r, db')"
  shows "\<exists>tk db0. planWorkflow env db tid (traceOf env tr) = (Inr tk, db0)
                 \<and> executePlan env db0 tk (traceOf env tr) = (Inr r, db')"
  using assms unfolding triageTicket_def Let_def
  by (auto split: prod.splits sum.splits)

lemma triageTicket_Inl:
  assumes "triageTicket env db tid tr = (Inl e, db')"
  shows "\<exists>db2. db' = logAuditEvent env db2 tid (traceOf env tr) SystemActor TRIAGE_FAILED
                       [(''error'', MString (errorMessage e))]
             \<and> (planWorkflow env db tid (traceOf env tr) = (Inl e, db2)
                \<or> (\<exists>tk db0. planWorkflow env db tid (traceOf env tr) = (Inr tk, db0)
                      \<and> executePlan env db0 tk (traceOf env tr) = (Inl e, db2)))"
  using assms unfolding triageTicket_def Let_def
  by (auto split: prod.splits sum.splits)

lemma triage_before_decision:
  assumes "triageTicket env db tid tr = (Inr r, db')"
  shows "\<exists>tk tk1 db3 m1 m2 m3 m4.
           findById t_id tid (tickets db) = Some tk
         \<and> classify (stubMode env) (t_title tk @ [CHR 0x0A, CHR 0x0A] @ t_description tk)
             = Inr (tr_classification r)
         \<and> searchArticles (articleDb env) (t_title tk @ '' '' @ t_description tk) 3
               (Some (predictedCategory (tr_classification r))) Published = Inr (tr_articles r)
         \<and> draft (stubMode env) (t_title tk @ [CHR 0x0A, CHR 0x0A] @ t_description tk)
               (Some (tr_articles r)) = Inr (tr_draft r)
         \<and> tk1 = (if predictedCategory (tr_classification r) \<noteq> t_category tk
                      \<and> confidence (tr_classification r) > double (7 / 10)
                   then tk\<lparr>t_category := predictedCategory (tr_classification r)\<rparr> else tk)
         \<and> t_id tk1 = tid
         \<and> findById t_id tid (tickets db3) = Some tk1
         \<and> configs db3 = configs db \<and> suggestions db3 = suggestions db
         \<and> auditLogs db3 = auditLogs db @
               [newAuditLog env tid (traceOf env tr) SystemActor TRIAGE_STARTED m1,
                newAuditLog env tid (traceOf env tr) SystemActor AGENT_CLASSIFIED m2,
                newAuditLog env tid (traceOf env tr) SystemActor KB_RETRIEVED m3,
                newAuditLog env tid (traceOf env tr) SystemActor DRAFT_GENERATED m4]
         \<and> makeDecision env db3 tk1 (tr_classification r) (tr_articles r) (tr_draft r)
               (traceOf env tr) = ((tr_decision r, tr_ticket r), db')"
proof -
  let ?trace = "traceOf env tr"
  from triageTicket_Inr [OF assms] obtain tk db0 where
    plan: "planWorkflow env db tid ?trace = (Inr tk, db0)" and
    exec: "executePlan env db0 tk ?trace = (Inr r, db')" by blast
  from executePlan_Inr [OF exec] obtain c tk1 db1 articles db2 d db3 where
    cl: "classifyTicket env db0 tk ?trace = (Inr (c, tk1), db1)" and
    re: "retrieveKnowledge env db1 tk1 c ?trace = (Inr articles, db2)" and
    dr: "draftReplyStep env db2 tk1 articles ?trace = (Inr d, db3)" and
    de: "makeDecision env db3 tk1 c articles d ?trace = ((tr_decision r, tr_ticket r), db')" and
    eqs: "tr_classification r = c" "tr_articles r = articles" "tr_draft r = d" by blast
  note p = planWorkflow_Inr [OF plan]
  note c = classifyTicket_Inr [OF cl]
  note k = retrieveKnowledge_Inr [OF re]
  note g = draftReplyStep_Inr [OF dr]
  have found: "findById t_id tid (tickets db) = Some tk" and tid: "t_id tk = tid" using p by simp_all
  have tid1: "t_id tk1 = tid" using c(2) tid by (simp split: if_splits)
  have tickets3: "tickets db3 = tickets db1" using k(2) g(2) by simp
  have tickets0: "tickets db0 = tickets db" using p by simp
  have stored: "findById t_id tid (tickets db3) = Some tk1"
  proof (cases "predictedCategory c \<noteq> t_category tk \<and> confidence c > double (7 / 10)")
    case True
    then have "tickets db1 = saveDoc t_id tk1 (tickets db0)" using c(3) by simp
    then show ?thesis using findById_saveDoc [of t_id tk1 "tickets db0"] tid1 tickets3 by simp
  next
    case False
    then have "tickets db1 = tickets db0" "tk1 = tk" using c(2,3) by auto
    then show ?thesis using found tickets3 tickets0 by simp
  qed
  have same: "t_title tk1 = t_title tk" "t_description tk1 = t_description tk"
    using c(2) by (simp_all split: if_splits)
  have srch: "searchArticles (articleDb env) (t_title tk @ '' '' @ t_description tk) 3
               (Some (predictedCategory c)) Published = Inr articles"
    using k(1) same by simp
  have drft: "draft (stubMode env) (t_title tk @ [CHR 0x0A, CHR 0x0A] @ t_description tk)
               (Some articles) = Inr d"
    using g(1) same by simp
  have cfg: "configs db3 = configs db" using p c(6) k(2) g(2) by simp
  have sg: "suggestions db3 = suggestions db" using p c(4) k(2) g(2) by simp
  have logs: "\<exists>m1 m2 m3 m4. auditLogs db3 = auditLogs db @
               [newAuditLog env tid ?trace SystemActor TRIAGE_STARTED m1,
                newAuditLog env tid ?trace SystemActor AGENT_CLASSIFIED m2,
                newAuditLog env tid ?trace SystemActor KB_RETRIEVED m3,
                newAuditLog env tid ?trace SystemActor DRAFT_GENERATED m4]"
    using p c(7) k(2) g(2) tid tid1 by (simp add: newAuditLog_def)
  from found c(1) srch drft c(2) tid1 stored cfg sg logs de eqs show ?thesis
    by blast
qed


lemma getConfig_fst: "configs a = configs b \<Longrightarrow> fst (getConfig a) = fst (getConfig b)"
  by (simp add: getConfig_def split: list.splits)

section \<open>Properties of the triage run\<close>

text \<open>
  Claim C7. Every successful triage run appends to the audit trail, in this order,
  one TRIAGE_STARTED, one AGENT_CLASSIFIED, one KB_RETRIEVED and one DRAFT_GENERATED
  event, then either one AUTO_CLOSED event or one ASSIGNED_TO_HUMAN event (followed by
  REPLY_SENT), and nothing else; all of them carry the trace identifier of the run and
  the identifier of the ticket.
\<close>

theorem triage_success_audit_trail:
  assumes "triageTicket env db tid tr = (Inr r, db')"
  shows "\<exists>new. auditLogs db' = auditLogs db @ new
           \<and> (map l_action new =
                 [TRIAGE_STARTED, AGENT_CLASSIFIED, KB_RETRIEVED, DRAFT_GENERATED, AUTO_CLOSED]
              \<or> map l_action new =
                 [TRIAGE_STARTED, AGENT_CLASSIFIED, KB_RETRIEVED, DRAFT_GENERATED,
                  ASSIGNED_TO_HUMAN, REPLY_SENT])
           \<and> l_traceId ` set new = {traceOf env tr}
           \<and> l_ticketId ` set new = {tid}"
proof -
  let ?trace = "traceOf env tr"
  from triage_before_decision [OF assms] obtain tk1 db3 m1 m2 m3 m4 where
    tid1: "t_id tk1 = tid" and
    logs: "auditLogs db3 = auditLogs db @
               [newAuditLog env tid ?trace SystemActor TRIAGE_STARTED m1,
                newAuditLog env tid ?trace SystemActor AGENT_CLASSIFIED m2,
                newAuditLog env tid ?trace SystemActor KB_RETRIEVED m3,
                newAuditLog env tid ?trace SystemActor DRAFT_GENERATED m4]" and
    de: "makeDecision env db3 tk1 (tr_classification r) (tr_articles r) (tr_draft r) ?trace
           = ((tr_decision r, tr_ticket r), db')" by blast
  let ?sg = "newSuggestion env tk1 (tr_classification r) (tr_articles r) (tr_draft r) ?trace"
  from makeDecision_cases [OF de] show ?thesis
  proof (elim disjE conjE)
    assume "autoClose env (snd (getConfig db3)) (fst (getConfig db3)) tk1 (tr_classification r)
              (tr_draft r) ?sg ?trace = ((tr_decision r, tr_ticket r), db')"
    from autoClose_effect(6) [OF this]
    have "auditLogs db' = auditLogs db @
            [newAuditLog env tid ?trace SystemActor TRIAGE_STARTED m1,
             newAuditLog env tid ?trace SystemActor AGENT_CLASSIFIED m2,
             newAuditLog env tid ?trace SystemActor KB_RETRIEVED m3,
             newAuditLog env tid ?trace SystemActor DRAFT_GENERATED m4,
             newAuditLog env tid ?trace SystemActor AUTO_CLOSED
               [(''confidence'', MNumber (confidence (tr_classification r))),
                (''threshold'', MNumber (confidenceThreshold (fst (getConfig db3)))),
                (''suggestionId'', MId (s_id ?sg))]]"
      using logs tid1 by (simp add: newAuditLog_def)
    then show ?thesis by (intro exI conjI, assumption) (simp_all add: newAuditLog_def)
  next
    assume "assignToHuman env (snd (getConfig db3)) tk1 (tr_classification r)
              (tr_draft r) ?sg ?trace = ((tr_decision r, tr_ticket r), db')"
    from assignToHuman_effect(6) [OF this] obtain n1 n2 where
      "auditLogs db' = auditLogs db @
            [newAuditLog env tid ?trace SystemActor TRIAGE_STARTED m1,
             newAuditLog env tid ?trace SystemActor AGENT_CLASSIFIED m2,
             newAuditLog env tid ?trace SystemActor KB_RETRIEVED m3,
             newAuditLog env tid ?trace SystemActor DRAFT_GENERATED m4,
             newAuditLog env tid ?trace SystemActor ASSIGNED_TO_HUMAN n1,
             newAuditLog env tid ?trace SystemActor REPLY_SENT n2]"
      using logs tid1 by (auto simp: newAuditLog_def)
    then show ?thesis by (intro exI conjI, assumption) (simp_all add: newAuditLog_def)
  qed
qed

lemma run_succeeds: "\<not> isl x \<Longrightarrow> \<exists>r. x = Inr r"
  by (cases x) auto

lemma triage_succeeds:
  assumes "findById t_id tid (tickets db) = Some tk"
    and "classify (stubMode env) (t_title tk @ [CHR 0x0A, CHR 0x0A] @ t_description tk) = Inr c"
    and "searchArticles (articleDb env) (t_title tk @ '' '' @ t_description tk) 3
           (Some (predictedCategory c)) Published = Inr articles"
    and "draft (stubMode env) (t_title tk @ [CHR 0x0A, CHR 0x0A] @ t_description tk)
           (Some articles) = Inr d"
  shows "\<exists>r db'. triageTicket env db tid tr = (Inr r, db')
           \<and> tr_classification r = c \<and> tr_articles r = articles \<and> tr_draft r = d"
proof -
  let ?trace = "traceOf env tr"
  obtain db0 where plan: "planWorkflow env db tid ?trace = (Inr tk, db0)"
    using assms(1) by (simp add: planWorkflow_def)
  have "\<exists>tk1 db1. classifyTicket env db0 tk ?trace = (Inr (c, tk1), db1)"
    using assms(2) by (auto simp: classifyTicket_def Let_def)
  then obtain tk1 db1 where cl: "classifyTicket env db0 tk ?trace = (Inr (c, tk1), db1)"
    by blast
  have same: "t_title tk1 = t_title tk" "t_description tk1 = t_description tk"
    using classifyTicket_Inr(2) [OF cl] by (simp_all split: if_splits)
  obtain db2 where re: "retrieveKnowledge env db1 tk1 c ?trace = (Inr articles, db2)"
    using assms(3) same by (simp add: retrieveKnowledge_def Let_def)
  obtain db3 where dr: "draftReplyStep env db2 tk1 articles ?trace = (Inr d, db3)"
    using assms(4) same by (simp add: draftReplyStep_def Let_def)
  obtain dec tk2 db4 where de: "makeDecision env db3 tk1 c articles d ?trace = ((dec, tk2), db4)"
    by (metis surj_pair)
  have "executePlan env db0 tk ?trace =
          (Inr \<lparr> tr_ticket = tk2, tr_classification = c, tr_articles = articles,
                 tr_draft = d, tr_decision = dec \<rparr>, db4)"
    by (simp add: executePlan_def cl re dr de)
  then have "triageTicket env db tid tr =
          (Inr \<lparr> tr_ticket = tk2, tr_classification = c, tr_articles = articles,
                 tr_draft = d, tr_decision = dec \<rparr>, db4)"
    by (simp add: triageTicket_def Let_def plan)
  then show ?thesis by simp
qed

lemma example_found: "findById t_id ''t1'' (tickets (exampleDb x)) = Some exampleTicket"
  by (simp add: findById_def exampleDb_def exampleTicket_def)

lemma example_search:
  "\<exists>articles. searchArticles (articleDb (exampleEnv exampleStore))
       (t_title exampleTicket @ '' '' @ t_description exampleTicket) 3
       (Some Billing) Published = Inr articles"
proof -
  have "\<not> isl (searchArticles exampleStore
       (t_title exampleTicket @ '' '' @ t_description exampleTicket) 3 (Some Billing) Published)"
    by (simp add: searchArticles_def exampleStore_def)
  then show ?thesis using run_succeeds by (simp add: exampleEnv_def)
qed

lemma draft_total: "\<exists>d. draft True text articles = Inr d"
proof -
  obtain c where "stubClassify text = Some c" using stubClassify_total by blast
  then show ?thesis by (simp add: draft_def stubDraft_def Let_def)
qed

lemma example_run:
  "\<exists>r db'. triageTicket (exampleEnv exampleStore) (exampleDb x) ''t1'' None = (Inr r, db')
      \<and> tr_classification r = \<lparr> predictedCategory = Billing, confidence = double (71 / 100) \<rparr>"
proof -
  obtain articles where s: "searchArticles (articleDb (exampleEnv exampleStore))
       (t_title exampleTicket @ '' '' @ t_description exampleTicket) 3
       (Some (predictedCategory \<lparr> predictedCategory = Billing, confidence = double (71 / 100) \<rparr>)) Published
       = Inr articles"
    using example_search by auto
  obtain d where d: "draft (stubMode (exampleEnv exampleStore))
       (t_title exampleTicket @ [CHR 0x0A, CHR 0x0A] @ t_description exampleTicket) (Some articles) = Inr d"
    using draft_total by (auto simp: exampleEnv_def)
  from triage_succeeds [OF example_found example_classify s d] show ?thesis by blast
qed

theorem triage_success_audit_trail_witness:
  "\<exists>r db' new. triageTicket (exampleEnv exampleStore) (exampleDb (5 / 10)) ''t1'' None = (Inr r, db')
      \<and> auditLogs db' = auditLogs (exampleDb (5 / 10)) @ new
      \<and> (map l_action new =
            [TRIAGE_STARTED, AGENT_CLASSIFIED, KB_RETRIEVED, DRAFT_GENERATED, AUTO_CLOSED]
         \<or> map l_action new =
            [TRIAGE_STARTED, AGENT_CLASSIFIED, KB_RETRIEVED, DRAFT_GENERATED,
             ASSIGNED_TO_HUMAN, REPLY_SENT])
      \<and> l_traceId ` set new = {''trace-1''}
      \<and> l_ticketId ` set new = {''t1''}"
proof -
  obtain r db' where
    run: "triageTicket (exampleEnv exampleStore) (exampleDb (5 / 10)) ''t1'' None = (Inr r, db')"
    using example_run by blast
  have tr: "traceOf (exampleEnv exampleStore) None = ''trace-1''"
    by (simp add: traceOf_def exampleEnv_def)
  note inst = triage_success_audit_trail [OF run, unfolded tr]
  show ?thesis
    apply (rule exI [of _ r])
    apply (rule exI [of _ db'])
    apply (simp only: run simp_thms)
    apply (rule inst)
    done
qed
lemma triage_decision_action:
  assumes "triageTicket env db tid tr = (Inr r, db')"
  shows "(d_action (tr_decision r) = AutoClosed)
           = shouldAutoClose (fst (getConfig db)) (tr_classification r)"
proof -
  from triage_before_decision [OF assms] obtain tk1 db3 where
    cfg: "configs db3 = configs db" and
    de: "makeDecision env db3 tk1 (tr_classification r) (tr_articles r) (tr_draft r)
           (traceOf env tr) = ((tr_decision r, tr_ticket r), db')" by blast
  have same: "fst (getConfig db3) = fst (getConfig db)" using cfg by (rule getConfig_fst)
  from makeDecision_cases [OF de] show ?thesis
  proof (elim disjE conjE)
    assume yes: "shouldAutoClose (fst (getConfig db3)) (tr_classification r)"
      and "autoClose env (snd (getConfig db3)) (fst (getConfig db3)) tk1 (tr_classification r)
             (tr_draft r) (newSuggestion env tk1 (tr_classification r) (tr_articles r) (tr_draft r) (traceOf env tr))
             (traceOf env tr) = ((tr_decision r, tr_ticket r), db')"
    from autoClose_effect(1) [OF this(2)] yes same show ?thesis by simp
  next
    assume no: "\<not> shouldAutoClose (fst (getConfig db3)) (tr_classification r)"
      and "assignToHuman env (snd (getConfig db3)) tk1 (tr_classification r)
             (tr_draft r) (newSuggestion env tk1 (tr_classification r) (tr_articles r) (tr_draft r) (traceOf env tr))
             (traceOf env tr) = ((tr_decision r, tr_ticket r), db')"
    from assignToHuman_effect(1) [OF this(2)] no same show ?thesis by simp
  qed
qed

text \<open>
  Claim C1, as amended. For every triage run that reaches the decision step, the
  threshold compared against the classifier confidence is the global
  \<open>confidenceThreshold\<close> of the configuration, whether or not a per-category
  threshold is configured for the predicted category: the run auto-closes exactly when
  auto-close is enabled and the confidence is at least the global threshold, the
  AUTO_CLOSED event records the global threshold, and replacing the per-category
  thresholds does not change the test.
\<close>

theorem decision_uses_global_threshold:
  assumes "triageTicket env db tid tr = (Inr r, db')"
  shows "((d_action (tr_decision r) = AutoClosed)
            = (autoCloseEnabled (fst (getConfig db))
               \<and> confidenceThreshold (fst (getConfig db)) \<le> confidence (tr_classification r)))
       \<and> (d_action (tr_decision r) = AutoClosed \<longrightarrow>
            l_action (last (auditLogs db')) = AUTO_CLOSED
            \<and> (''threshold'', MNumber (confidenceThreshold (fst (getConfig db))))
                 \<in> set (l_meta (last (auditLogs db'))))
       \<and> (\<forall>ct. shouldAutoClose ((fst (getConfig db))\<lparr>categoryThresholds := ct\<rparr>) (tr_classification r)
                 = shouldAutoClose (fst (getConfig db)) (tr_classification r))"
proof (intro conjI impI allI)
  show "(d_action (tr_decision r) = AutoClosed)
            = (autoCloseEnabled (fst (getConfig db))
               \<and> confidenceThreshold (fst (getConfig db)) \<le> confidence (tr_classification r))"
    using triage_decision_action [OF assms] by (simp add: shouldAutoClose_def)
next
  fix ct
  show "shouldAutoClose ((fst (getConfig db))\<lparr>categoryThresholds := ct\<rparr>) (tr_classification r)
          = shouldAutoClose (fst (getConfig db)) (tr_classification r)"
    by (simp add: shouldAutoClose_def)
next
  assume closed: "d_action (tr_decision r) = AutoClosed"
  from triage_before_decision [OF assms] obtain tk1 db3 where
    cfg: "configs db3 = configs db" and
    de: "makeDecision env db3 tk1 (tr_classification r) (tr_articles r) (tr_draft r)
           (traceOf env tr) = ((tr_decision r, tr_ticket r), db')" by blast
  have same: "fst (getConfig db3) = fst (getConfig db)" using cfg by (rule getConfig_fst)
  from makeDecision_cases [OF de] have
    ac: "autoClose env (snd (getConfig db3)) (fst (getConfig db3)) tk1 (tr_classification r)
             (tr_draft r) (newSuggestion env tk1 (tr_classification r) (tr_articles r) (tr_draft r) (traceOf env tr))
             (traceOf env tr) = ((tr_decision r, tr_ticket r), db')"
    using closed assignToHuman_effect(1) by fastforce
  from autoClose_effect(6) [OF ac] same
  show "l_action (last (auditLogs db')) = AUTO_CLOSED"
    and "(''threshold'', MNumber (confidenceThreshold (fst (getConfig db))))
                 \<in> set (l_meta (last (auditLogs db')))"
    by simp_all
qed

lemma example_config:
  "fst (getConfig (exampleDb x)) =
     defaultConfig\<lparr> confidenceThreshold := x,
                     categoryThresholds := defaultCategoryThresholds(Billing := Some (double (7 / 10))) \<rparr>"
  by (simp add: getConfig_def exampleDb_def)

theorem decision_uses_global_threshold_witness:
  "\<exists>r db'. triageTicket (exampleEnv exampleStore) (exampleDb (5 / 10)) ''t1'' None = (Inr r, db')
      \<and> d_action (tr_decision r) = AutoClosed
      \<and> l_action (last (auditLogs db')) = AUTO_CLOSED
      \<and> (''threshold'', MNumber (5 / 10)) \<in> set (l_meta (last (auditLogs db')))"
proof -
  obtain r db' where
    run: "triageTicket (exampleEnv exampleStore) (exampleDb (5 / 10)) ''t1'' None = (Inr r, db')"
    and c: "tr_classification r = \<lparr> predictedCategory = Billing, confidence = double (71 / 100) \<rparr>"
    using example_run by blast
  have cfg: "autoCloseEnabled (fst (getConfig (exampleDb (5 / 10))))"
            "confidenceThreshold (fst (getConfig (exampleDb (5 / 10)))) = 5 / 10"
    by (simp_all add: example_config defaultConfig_def)
  note inst = decision_uses_global_threshold [OF run]
  have closed: "d_action (tr_decision r) = AutoClosed"
    using inst c cfg example_numbers by simp
  with inst have "l_action (last (auditLogs db')) = AUTO_CLOSED
      \<and> (''threshold'', MNumber (confidenceThreshold (fst (getConfig (exampleDb (5 / 10))))))
            \<in> set (l_meta (last (auditLogs db')))"
    by simp
  then have "l_action (last (auditLogs db')) = AUTO_CLOSED
      \<and> (''threshold'', MNumber (5 / 10)) \<in> set (l_meta (last (auditLogs db')))"
    unfolding cfg(2) .
  with run closed show ?thesis by blast
qed

text \<open>
  Claim C1 as stated fails: with a global threshold of 0.9 and a billing threshold of
  0.7 configured, the ticket of the tests is classified as billing with confidence 0.71.
  The per-category threshold is met, auto-close is enabled, and the run still assigns
  the ticket to a human, because the confidence is below the global threshold.
\<close>

theorem category_threshold_ignored_counterexample:
  "\<not> isl (fst (triageTicket (exampleEnv exampleStore) (exampleDb (double (9 / 10))) ''t1'' None))
   \<and> tr_classification (projr (fst (triageTicket (exampleEnv exampleStore) (exampleDb (double (9 / 10))) ''t1'' None)))
       = \<lparr> predictedCategory = Billing, confidence = double (71 / 100) \<rparr>
   \<and> autoCloseEnabled (fst (getConfig (exampleDb (double (9 / 10)))))
   \<and> categoryThresholds (fst (getConfig (exampleDb (double (9 / 10))))) Billing = Some (double (7 / 10))
   \<and> specThreshold (fst (getConfig (exampleDb (double (9 / 10))))) Billing = double (7 / 10)
   \<and> confidenceThreshold (fst (getConfig (exampleDb (double (9 / 10))))) = double (9 / 10)
   \<and> d_action (tr_decision (projr (fst (triageTicket (exampleEnv exampleStore) (exampleDb (double (9 / 10))) ''t1'' None))))
       = AssignedToHuman"
proof -
  obtain r db' where
    run: "triageTicket (exampleEnv exampleStore) (exampleDb (double (9 / 10))) ''t1'' None = (Inr r, db')"
    and c: "tr_classification r = \<lparr> predictedCategory = Billing, confidence = double (71 / 100) \<rparr>"
    using example_run by blast
  have cfg: "autoCloseEnabled (fst (getConfig (exampleDb (double (9 / 10)))))"
            "categoryThresholds (fst (getConfig (exampleDb (double (9 / 10))))) Billing = Some (double (7 / 10))"
            "specThreshold (fst (getConfig (exampleDb (double (9 / 10))))) Billing = double (7 / 10)"
            "confidenceThreshold (fst (getConfig (exampleDb (double (9 / 10))))) = double (9 / 10)"
    by (simp_all add: example_config defaultConfig_def specThreshold_def)
  have "d_action (tr_decision r) \<noteq> AutoClosed"
    using triage_decision_action [OF run] c cfg example_numbers by (simp add: shouldAutoClose_def)
  then have "d_action (tr_decision r) = AssignedToHuman"
    by (cases "d_action (tr_decision r)") simp_all
  with c cfg show ?thesis by (simp add: run)
qed

text \<open>
  Claim C2. For every triage run that reaches the decision with auto-close enabled,
  the decision is auto_closed if and only if the confidence is at least the threshold
  the decision uses (the global \<open>confidenceThreshold\<close>), equality included. On
  auto_closed the stored ticket is the ticket as loaded plus exactly one more reply,
  externally visible and containing the draft; its status is resolved and
  \<open>resolvedAt\<close> is the time of the run; and the stored suggestion of the run has
  \<open>autoClosed\<close> set.
\<close>

theorem autoClose_threshold_and_effects:
  assumes run: "triageTicket env db tid tr = (Inr r, db')"
    and enabled: "autoCloseEnabled (fst (getConfig db))"
  shows "((d_action (tr_decision r) = AutoClosed)
            = (confidenceThreshold (fst (getConfig db)) \<le> confidence (tr_classification r)))
       \<and> (d_action (tr_decision r) = AutoClosed \<longrightarrow>
            (\<exists>tk author sg.
                findById t_id tid (tickets db) = Some tk
              \<and> findById t_id tid (tickets db') = Some (tr_ticket r)
              \<and> t_replies (tr_ticket r) = t_replies tk @
                    [\<lparr> r_author = author, r_content = draftReply (tr_draft r), r_isInternal = False \<rparr>]
              \<and> t_status (tr_ticket r) = Resolved
              \<and> t_resolvedAt (tr_ticket r) = Some (now env)
              \<and> findById s_id (newSuggestionId env) (suggestions db') = Some sg
              \<and> d_suggestion (tr_decision r) = sg
              \<and> s_autoClosed sg \<and> s_ticketId sg = tid
              \<and> s_draftReply sg = draftReply (tr_draft r)))"
proof (intro conjI impI)
  show "(d_action (tr_decision r) = AutoClosed)
            = (confidenceThreshold (fst (getConfig db)) \<le> confidence (tr_classification r))"
    using triage_decision_action [OF run] enabled by (simp add: shouldAutoClose_def)
next
  assume closed: "d_action (tr_decision r) = AutoClosed"
  let ?trace = "traceOf env tr"
  let ?c = "tr_classification r"
  from triage_before_decision [OF run] obtain tk tk1 db3 where
    found: "findById t_id tid (tickets db) = Some tk" and
    tk1: "tk1 = (if predictedCategory ?c \<noteq> t_category tk \<and> confidence ?c > double (7 / 10)
                 then tk\<lparr>t_category := predictedCategory ?c\<rparr> else tk)" and
    tid1: "t_id tk1 = tid" and
    de: "makeDecision env db3 tk1 ?c (tr_articles r) (tr_draft r) ?trace
           = ((tr_decision r, tr_ticket r), db')" by blast
  let ?sg = "newSuggestion env tk1 ?c (tr_articles r) (tr_draft r) ?trace"
  let ?sg1 = "?sg\<lparr>s_autoClosed := True\<rparr>"
  let ?dbc = "snd (getConfig db3)"
  from makeDecision_cases [OF de] have
    ac: "autoClose env ?dbc (fst (getConfig db3)) tk1 ?c (tr_draft r) ?sg ?trace
           = ((tr_decision r, tr_ticket r), db')"
    using closed assignToHuman_effect(1) by fastforce
  note eff = autoClose_effect [OF ac]
  let ?author = "fst (getSystemUser env (?dbc\<lparr>suggestions := saveDoc s_id ?sg1 (suggestions ?dbc)\<rparr>))"
  have replies1: "t_replies tk1 = t_replies tk" using tk1 by (simp split: if_splits)
  have idr: "t_id (tr_ticket r) = tid" using eff(2) tid1 by simp
  have stored: "findById t_id tid (tickets db') = Some (tr_ticket r)"
    using findById_saveDoc [of t_id "tr_ticket r" "tickets ?dbc"] eff(3) idr by simp
  have replies: "t_replies (tr_ticket r) = t_replies tk @
      [\<lparr> r_author = ?author, r_content = draftReply (tr_draft r), r_isInternal = False \<rparr>]"
    using eff(2) replies1 by simp
  have status: "t_status (tr_ticket r) = Resolved" "t_resolvedAt (tr_ticket r) = Some (now env)"
    using eff(2) by simp_all
  have sid: "s_id ?sg1 = newSuggestionId env" by (simp add: newSuggestion_def)
  have sstored: "findById s_id (newSuggestionId env) (suggestions db') = Some ?sg1"
    using findById_saveDoc [of s_id ?sg1 "suggestions ?dbc"] eff(4) sid by simp
  have dsg: "d_suggestion (tr_decision r) = ?sg1" using eff(1) by simp
  have sprops: "s_autoClosed ?sg1" "s_ticketId ?sg1 = tid" "s_draftReply ?sg1 = draftReply (tr_draft r)"
    using tid1 by (simp_all add: newSuggestion_def)
  from found stored replies status sstored dsg sprops
  show "\<exists>tk author sg.
                findById t_id tid (tickets db) = Some tk
              \<and> findById t_id tid (tickets db') = Some (tr_ticket r)
              \<and> t_replies (tr_ticket r) = t_replies tk @
                    [\<lparr> r_author = author, r_content = draftReply (tr_draft r), r_isInternal = False \<rparr>]
              \<and> t_status (tr_ticket r) = Resolved
              \<and> t_resolvedAt (tr_ticket r) = Some (now env)
              \<and> findById s_id (newSuggestionId env) (suggestions db') = Some sg
              \<and> d_suggestion (tr_decision r) = sg
              \<and> s_autoClosed sg \<and> s_ticketId sg = tid
              \<and> s_draftReply sg = draftReply (tr_draft r)"
    by blast
qed

theorem autoClose_threshold_and_effects_witness:
  "\<exists>r db'. triageTicket (exampleEnv exampleStore) (exampleDb (double (71 / 100))) ''t1'' None = (Inr r, db')
      \<and> autoCloseEnabled (fst (getConfig (exampleDb (double (71 / 100)))))
      \<and> confidenceThreshold (fst (getConfig (exampleDb (double (71 / 100))))) = confidence (tr_classification r)
      \<and> d_action (tr_decision r) = AutoClosed
      \<and> findById t_id ''t1'' (tickets db') = Some (tr_ticket r)
      \<and> length (t_replies (tr_ticket r)) = 1
      \<and> t_status (tr_ticket r) = Resolved
      \<and> t_resolvedAt (tr_ticket r) = Some 1000"
proof -
  obtain r db' where
    run: "triageTicket (exampleEnv exampleStore) (exampleDb (double (71 / 100))) ''t1'' None = (Inr r, db')"
    and c: "tr_classification r = \<lparr> predictedCategory = Billing, confidence = double (71 / 100) \<rparr>"
    using example_run by blast
  have cfg: "autoCloseEnabled (fst (getConfig (exampleDb (double (71 / 100)))))"
            "confidenceThreshold (fst (getConfig (exampleDb (double (71 / 100))))) = double (71 / 100)"
    by (simp_all add: example_config defaultConfig_def)
  note inst = autoClose_threshold_and_effects [OF run cfg(1)]
  have closed: "d_action (tr_decision r) = AutoClosed"
    using inst c cfg by simp
  with inst obtain tk author where
    "findById t_id ''t1'' (tickets (exampleDb (double (71 / 100)))) = Some tk"
    "findById t_id ''t1'' (tickets db') = Some (tr_ticket r)"
    "t_replies (tr_ticket r) = t_replies tk @
        [\<lparr> r_author = author, r_content = draftReply (tr_draft r), r_isInternal = False \<rparr>]"
    "t_status (tr_ticket r) = Resolved"
    "t_resolvedAt (tr_ticket r) = Some (now (exampleEnv exampleStore))"
    by blast
  moreover from this(1) have "t_replies tk = []"
    by (auto simp: example_found exampleTicket_def)
  moreover have "now (exampleEnv exampleStore) = 1000" by (simp add: exampleEnv_def)
  ultimately show ?thesis using run c cfg closed by simp
qed

lemma failed_run:
  assumes found: "findById t_id tid (tickets db) = Some tk"
    and fails: "pipelineFailure env tk = Some e"
  shows "\<exists>db2 before.
           triageTicket env db tid tr =
             (Inl e, logAuditEvent env db2 tid (traceOf env tr) SystemActor TRIAGE_FAILED
                       [(''error'', MString (errorMessage e))])
         \<and> suggestions db2 = suggestions db \<and> users db2 = users db \<and> configs db2 = configs db
         \<and> auditLogs db2 = auditLogs db @ before
         \<and> set (map l_action before) \<subseteq> {TRIAGE_STARTED, AGENT_CLASSIFIED, KB_RETRIEVED}
         \<and> (tickets db2 = tickets db
            \<or> (\<exists>p. tickets db2 = saveDoc t_id (tk\<lparr>t_category := p\<rparr>) (tickets db)))"
proof -
  let ?trace = "traceOf env tr"
  let ?text = "t_title tk @ [CHR 0x0A, CHR 0x0A] @ t_description tk"
  let ?query = "t_title tk @ '' '' @ t_description tk"
  let ?failed = "\<lambda>d. logAuditEvent env d tid ?trace SystemActor TRIAGE_FAILED
                       [(''error'', MString (errorMessage e))]"
  have tid: "t_id tk = tid" using found by (rule findById_key)
  obtain db0 where plan: "planWorkflow env db tid ?trace = (Inr tk, db0)"
    and db0: "db0 = logAuditEvent env db tid ?trace SystemActor TRIAGE_STARTED
               [(''ticketTitle'', MString (t_title tk)), (''category'', MCategory (t_category tk))]"
    using found by (simp add: planWorkflow_def)
  have run: "triageTicket env db tid tr =
               (case executePlan env db0 tk ?trace of
                  (Inr result, d) \<Rightarrow> (Inr result, d)
                | (Inl e', d) \<Rightarrow>
                    (Inl e', logAuditEvent env d tid ?trace SystemActor TRIAGE_FAILED
                               [(''error'', MString (errorMessage e'))]))"
    by (simp add: triageTicket_def Let_def plan)
  show ?thesis
  proof (cases "classify (stubMode env) ?text")
    case (Inl e1)
    then have e: "e1 = e" using fails by (simp add: pipelineFailure_def)
    have "classifyTicket env db0 tk ?trace = (Inl e, db0)"
      using Inl e by (simp add: classifyTicket_def Let_def)
    then have "executePlan env db0 tk ?trace = (Inl e, db0)"
      by (simp add: executePlan_def)
    then have "triageTicket env db tid tr = (Inl e, ?failed db0)"
      using run by simp
    moreover have "auditLogs db0 = auditLogs db @
        [newAuditLog env tid ?trace SystemActor TRIAGE_STARTED
           [(''ticketTitle'', MString (t_title tk)), (''category'', MCategory (t_category tk))]]"
      using db0 by (simp add: newAuditLog_def)
    moreover have "set (map l_action
        [newAuditLog env tid ?trace SystemActor TRIAGE_STARTED
           [(''ticketTitle'', MString (t_title tk)), (''category'', MCategory (t_category tk))]])
        \<subseteq> {TRIAGE_STARTED, AGENT_CLASSIFIED, KB_RETRIEVED}"
      by (simp add: newAuditLog_def)
    moreover have "suggestions db0 = suggestions db" "users db0 = users db"
      "configs db0 = configs db" "tickets db0 = tickets db"
      using db0 by simp_all
    ultimately show ?thesis by blast
  next
    case (Inr c)
    have "\<exists>tk1 db1. classifyTicket env db0 tk ?trace = (Inr (c, tk1), db1)"
      using Inr by (auto simp: classifyTicket_def Let_def)
    then obtain tk1 db1 where cl: "classifyTicket env db0 tk ?trace = (Inr (c, tk1), db1)"
      by blast
    note cf = classifyTicket_Inr [OF cl]
    have same: "t_title tk1 = t_title tk" "t_description tk1 = t_description tk" "t_id tk1 = tid"
      using cf(2) tid by (simp_all split: if_splits)
    have logs1: "auditLogs db1 = auditLogs db @
        [newAuditLog env tid ?trace SystemActor TRIAGE_STARTED
           [(''ticketTitle'', MString (t_title tk)), (''category'', MCategory (t_category tk))],
         newAuditLog env tid ?trace SystemActor AGENT_CLASSIFIED
           [(''originalCategory'', MCategory (t_category tk)),
            (''predictedCategory'', MCategory (predictedCategory c)),
            (''confidence'', MNumber (confidence c))]]"
      using cf(7) db0 tid by (simp add: newAuditLog_def)
    have rest1: "suggestions db1 = suggestions db" "users db1 = users db" "configs db1 = configs db"
      using cf(4,5,6) db0 by simp_all
    have tickets1: "tickets db1 = tickets db
            \<or> (\<exists>p. tickets db1 = saveDoc t_id (tk\<lparr>t_category := p\<rparr>) (tickets db))"
      using cf(2,3) db0 by (auto split: if_splits)
    show ?thesis
    proof (cases "searchArticles (articleDb env) ?query 3 (Some (predictedCategory c)) Published")
      case (Inl e1)
      then have e: "e1 = e" using fails Inr by (simp add: pipelineFailure_def)
      have "retrieveKnowledge env db1 tk1 c ?trace = (Inl e, db1)"
        using Inl e same by (simp add: retrieveKnowledge_def Let_def)
      then have "executePlan env db0 tk ?trace = (Inl e, db1)"
        by (simp add: executePlan_def cl)
      then have "triageTicket env db tid tr = (Inl e, ?failed db1)"
        using run by simp
      moreover have "set (map l_action
        [newAuditLog env tid ?trace SystemActor TRIAGE_STARTED
           [(''ticketTitle'', MString (t_title tk)), (''category'', MCategory (t_category tk))],
         newAuditLog env tid ?trace SystemActor AGENT_CLASSIFIED
           [(''originalCategory'', MCategory (t_category tk)),
            (''predictedCategory'', MCategory (predictedCategory c)),
            (''confidence'', MNumber (confidence c))]])
        \<subseteq> {TRIAGE_STARTED, AGENT_CLASSIFIED, KB_RETRIEVED}"
        by (simp add: newAuditLog_def)
      ultimately show ?thesis using logs1 rest1 tickets1 by blast
    next
      case (Inr articles)
      note srch = Inr
      obtain db2 where re: "retrieveKnowledge env db1 tk1 c ?trace = (Inr articles, db2)"
        using srch same by (simp add: retrieveKnowledge_def Let_def)
      note rf = retrieveKnowledge_Inr(2) [OF re]
      obtain e1 where dr: "draft (stubMode env) ?text (Some articles) = Inl e1"
        using fails \<open>classify (stubMode env) ?text = Inr c\<close> srch
        by (cases "draft (stubMode env) ?text (Some articles)") (simp_all add: pipelineFailure_def)
      then have e: "e1 = e"
        using fails \<open>classify (stubMode env) ?text = Inr c\<close> srch by (simp add: pipelineFailure_def)
      have "draftReplyStep env db2 tk1 articles ?trace = (Inl e, db2)"
        using dr e same by (simp add: draftReplyStep_def Let_def)
      then have "executePlan env db0 tk ?trace = (Inl e, db2)"
        by (simp add: executePlan_def cl re)
      then have "triageTicket env db tid tr = (Inl e, ?failed db2)"
        using run by simp
      moreover have "\<exists>m. auditLogs db2 = auditLogs db @
        [newAuditLog env tid ?trace SystemActor TRIAGE_STARTED
           [(''ticketTitle'', MString (t_title tk)), (''category'', MCategory (t_category tk))],
         newAuditLog env tid ?trace SystemActor AGENT_CLASSIFIED
           [(''originalCategory'', MCategory (t_category tk)),
            (''predictedCategory'', MCategory (predictedCategory c)),
            (''confidence'', MNumber (confidence c))],
         newAuditLog env tid ?trace SystemActor KB_RETRIEVED m]"
        using rf logs1 same by (simp add: newAuditLog_def)
      moreover have "\<And>m. set (map l_action
        [newAuditLog env tid ?trace SystemActor TRIAGE_STARTED
           [(''ticketTitle'', MString (t_title tk)), (''category'', MCategory (t_category tk))],
         newAuditLog env tid ?trace SystemActor AGENT_CLASSIFIED
           [(''originalCategory'', MCategory (t_category tk)),
            (''predictedCategory'', MCategory (predictedCategory c)),
            (''confidence'', MNumber (confidence c))],
         newAuditLog env tid ?trace SystemActor KB_RETRIEVED m])
        \<subseteq> {TRIAGE_STARTED, AGENT_CLASSIFIED, KB_RETRIEVED}"
        by (simp add: newAuditLog_def)
      moreover have "suggestions db2 = suggestions db" "users db2 = users db"
        "configs db2 = configs db" "tickets db2 = tickets db1"
        using rf rest1 by simp_all
      ultimately show ?thesis using tickets1 by metis
    qed
  qed
qed



lemma example_broken_failure:
  "pipelineFailure (exampleEnv brokenStore) exampleTicket = Some KnowledgeBaseUnavailable"
proof -
  have "searchArticles (articleDb (exampleEnv brokenStore)) q 3 cat Published
          = Inl KnowledgeBaseUnavailable" for q cat
    by (simp add: searchArticles_def exampleEnv_def brokenStore_def)
  then show ?thesis
    unfolding pipelineFailure_def example_classify by simp
qed


text \<open>
  Claim C4. When the classifier predicts a category other than the one stored on the
  ticket with a confidence strictly above 0.7, the classification step itself stores
  the predicted category on the ticket, before retrieval, drafting and decision. At
  the end of the run the stored ticket has the predicted category whatever the later
  steps do, also when the run fails.
\<close>

theorem classification_persists_category:
  assumes found: "findById t_id tid (tickets db) = Some tk"
    and cls: "classify (stubMode env) (t_title tk @ [CHR 0x0A, CHR 0x0A] @ t_description tk) = Inr c"
    and differs: "predictedCategory c \<noteq> t_category tk"
    and high: "confidence c > double (7 / 10)"
  shows "(\<exists>db1. classifyTicket env db tk trace
                   = (Inr (c, tk\<lparr>t_category := predictedCategory c\<rparr>), db1)
               \<and> findById t_id tid (tickets db1) = Some (tk\<lparr>t_category := predictedCategory c\<rparr>))
       \<and> (\<exists>tk'. findById t_id tid (tickets (snd (triageTicket env db tid tr))) = Some tk'
               \<and> t_category tk' = predictedCategory c)"
proof
  let ?tk1 = "tk\<lparr>t_category := predictedCategory c\<rparr>"
  have tid: "t_id tk = tid" using found by (rule findById_key)
  have stored: "\<And>ds. findById t_id tid (saveDoc t_id ?tk1 ds) = Some ?tk1"
    using findById_saveDoc [of t_id ?tk1] tid by simp
  show "\<exists>db1. classifyTicket env db tk trace = (Inr (c, ?tk1), db1)
               \<and> findById t_id tid (tickets db1) = Some ?tk1"
    using cls differs high stored by (simp add: classifyTicket_def Let_def)
  let ?trace = "traceOf env tr"
  obtain res db' where run: "triageTicket env db tid tr = (res, db')"
    by (cases "triageTicket env db tid tr")
  have "\<exists>tk'. findById t_id tid (tickets db') = Some tk' \<and> t_category tk' = predictedCategory c"
  proof (cases res)
    case (Inr r)
    from triage_before_decision [OF run [unfolded Inr]] obtain tk0 tk1 db3 where
      f0: "findById t_id tid (tickets db) = Some tk0" and
      c0: "classify (stubMode env) (t_title tk0 @ [CHR 0x0A, CHR 0x0A] @ t_description tk0)
             = Inr (tr_classification r)" and
      t1: "tk1 = (if predictedCategory (tr_classification r) \<noteq> t_category tk0
                      \<and> confidence (tr_classification r) > double (7 / 10)
                   then tk0\<lparr>t_category := predictedCategory (tr_classification r)\<rparr> else tk0)" and
      tid1: "t_id tk1 = tid" and
      de: "makeDecision env db3 tk1 (tr_classification r) (tr_articles r) (tr_draft r) ?trace
             = ((tr_decision r, tr_ticket r), db')" by blast
    have "tk0 = tk" using f0 found by simp
    then have "tr_classification r = c" using c0 cls by simp
    then have cat1: "t_category tk1 = predictedCategory c"
      using t1 \<open>tk0 = tk\<close> differs high by simp
    let ?sg = "newSuggestion env tk1 (tr_classification r) (tr_articles r) (tr_draft r) ?trace"
    from makeDecision_cases [OF de]
    have "findById t_id tid (tickets db') = Some (tr_ticket r)
            \<and> t_category (tr_ticket r) = predictedCategory c"
    proof (elim disjE conjE)
      assume "autoClose env (snd (getConfig db3)) (fst (getConfig db3)) tk1 (tr_classification r)
                (tr_draft r) ?sg ?trace = ((tr_decision r, tr_ticket r), db')"
      note eff = autoClose_effect [OF this]
      have "t_id (tr_ticket r) = tid" "t_category (tr_ticket r) = predictedCategory c"
        using eff(2) tid1 cat1 by simp_all
      then show ?thesis
        using findById_saveDoc [of t_id "tr_ticket r" "tickets (snd (getConfig db3))"] eff(3)
        by simp
    next
      assume "assignToHuman env (snd (getConfig db3)) tk1 (tr_classification r)
                (tr_draft r) ?sg ?trace = ((tr_decision r, tr_ticket r), db')"
      note eff = assignToHuman_effect [OF this]
      have "t_id (tr_ticket r) = tid" "t_category (tr_ticket r) = predictedCategory c"
        using eff(3,4) tid1 cat1 by simp_all
      then show ?thesis
        using findById_saveDoc [of t_id "tr_ticket r" "tickets (snd (getConfig db3))"] eff(5)
        by simp
    qed
    then show ?thesis by blast
  next
    case (Inl e)
    from triageTicket_Inl [OF run [unfolded Inl]] obtain db2 where
      db': "db' = logAuditEvent env db2 tid ?trace SystemActor TRIAGE_FAILED
                    [(''error'', MString (errorMessage e))]" and
      alt: "planWorkflow env db tid ?trace = (Inl e, db2)
            \<or> (\<exists>tk0 db0. planWorkflow env db tid ?trace = (Inr tk0, db0)
                  \<and> executePlan env db0 tk0 ?trace = (Inl e, db2))" by blast
    have "planWorkflow env db tid ?trace \<noteq> (Inl e, db2)"
      using found by (simp add: planWorkflow_def)
    with alt obtain tk0 db0 where
      plan: "planWorkflow env db tid ?trace = (Inr tk0, db0)" and
      exec: "executePlan env db0 tk0 ?trace = (Inl e, db2)" by blast
    have tk0: "tk0 = tk" using planWorkflow_Inr [OF plan] found by simp
    have "classifyTicket env db0 tk ?trace \<noteq> (Inl e, db2)"
      using cls by (simp add: classifyTicket_def Let_def)
    with executePlan_Inl [OF exec] tk0 obtain c1 tk1 db1 where
      cl: "classifyTicket env db0 tk ?trace = (Inr (c1, tk1), db1)" and
      later: "retrieveKnowledge env db1 tk1 c1 ?trace = (Inl e, db2)
              \<or> (\<exists>articles db2'. retrieveKnowledge env db1 tk1 c1 ?trace = (Inr articles, db2')
                    \<and> draftReplyStep env db2' tk1 articles ?trace = (Inl e, db2))" by blast
    note cf = classifyTicket_Inr [OF cl]
    have c1: "c1 = c" using cf(1) cls by simp
    have tk1: "tk1 = ?tk1" using cf(2) c1 differs high by simp
    have "tickets db1 = saveDoc t_id ?tk1 (tickets db0)" using cf(3) c1 tk1 differs high by simp
    then have s1: "findById t_id tid (tickets db1) = Some ?tk1" using stored by simp
    have "tickets db2 = tickets db1"
      using later
    proof (elim disjE exE conjE)
      assume "retrieveKnowledge env db1 tk1 c1 ?trace = (Inl e, db2)"
      then show ?thesis using retrieveKnowledge_Inl by blast
    next
      fix articles db2'
      assume r: "retrieveKnowledge env db1 tk1 c1 ?trace = (Inr articles, db2')"
        and d: "draftReplyStep env db2' tk1 articles ?trace = (Inl e, db2)"
      have "db2 = db2'" using draftReplyStep_Inl [OF d] by simp
      then show ?thesis using retrieveKnowledge_Inr(2) [OF r] by simp
    qed
    then have "findById t_id tid (tickets db') = Some ?tk1" using s1 db' by simp
    then show ?thesis by simp
  qed
  then show "\<exists>tk'. findById t_id tid (tickets (snd (triageTicket env db tid tr))) = Some tk'
               \<and> t_category tk' = predictedCategory c"
    using run by simp
qed

lemma example_broken_run:
  "fst (triageTicket (exampleEnv brokenStore) (exampleDb (5 / 10)) ''t1'' None)
     = Inl KnowledgeBaseUnavailable"
  using failed_run [OF example_found example_broken_failure, of "5 / 10" None] by auto

theorem classification_persists_category_witness:
  "t_category exampleTicket = Other
   \<and> fst (triageTicket (exampleEnv brokenStore) (exampleDb (5 / 10)) ''t1'' None)
       = Inl KnowledgeBaseUnavailable
   \<and> (\<exists>tk'. findById t_id ''t1''
               (tickets (snd (triageTicket (exampleEnv brokenStore) (exampleDb (5 / 10)) ''t1'' None)))
             = Some tk'
           \<and> t_category tk' = Billing)"
proof -
  have differs: "predictedCategory \<lparr> predictedCategory = Billing, confidence = double (71 / 100) \<rparr>
                   \<noteq> t_category exampleTicket"
    by (simp add: exampleTicket_def)
  have high: "confidence \<lparr> predictedCategory = Billing, confidence = double (71 / 100) \<rparr> > double (7 / 10)"
    using example_numbers by simp
  note inst = classification_persists_category
      [OF example_found [of "5 / 10"] example_classify [of brokenStore] differs high,
        where tr = None]
  then have "\<exists>tk'. findById t_id ''t1''
               (tickets (snd (triageTicket (exampleEnv brokenStore) (exampleDb (5 / 10)) ''t1'' None)))
             = Some tk'
           \<and> t_category tk' = Billing"
    by simp
  then show ?thesis using example_broken_run by (simp add: exampleTicket_def)
qed

text \<open>
  Claim C10. For every stored suggestion, \<open>rejectSuggestion\<close> returns and stores the
  suggestion with \<open>accepted = false\<close> and the rejecting actor, appends one
  SUGGESTION_REJECTED event that carries the reason in its metadata, and leaves every
  ticket (and so its status) unchanged.
\<close>

theorem rejectSuggestion_effect:
  assumes "findById s_id suggestionId (suggestions db) = Some sg"
  shows "\<exists>sg1 db'.
           rejectSuggestion env db suggestionId agentId reason = (Inr sg1, db')
         \<and> sg1 = sg\<lparr> s_accepted := Some False, s_acceptedBy := Some agentId,
                       s_acceptedAt := Some (now env) \<rparr>
         \<and> findById s_id suggestionId (suggestions db') = Some sg1
         \<and> auditLogs db' = auditLogs db @
               [newAuditLog env (s_ticketId sg) (s_traceId sg) AgentActor SUGGESTION_REJECTED
                  [(''suggestionId'', MId suggestionId), (''agentId'', MId agentId),
                   (''reason'', MString reason)]]
         \<and> tickets db' = tickets db"
proof -
  let ?sg1 = "sg\<lparr> s_accepted := Some False, s_acceptedBy := Some agentId,
                   s_acceptedAt := Some (now env) \<rparr>"
  have sid: "s_id ?sg1 = suggestionId" using findById_key [OF assms] by simp
  have "findById s_id suggestionId (saveDoc s_id ?sg1 (suggestions db)) = Some ?sg1"
    using findById_saveDoc [of s_id ?sg1 "suggestions db"] sid by simp
  then show ?thesis
    using assms by (simp add: rejectSuggestion_def Let_def newAuditLog_def)
qed

theorem rejectSuggestion_effect_witness:
  "\<exists>sg1 db'.
      rejectSuggestion (exampleEnv exampleStore) ((exampleDb (5 / 10))\<lparr>suggestions := [exampleSuggestion]\<rparr>)
        ''s9'' ''u2'' ''Not accurate'' = (Inr sg1, db')
    \<and> s_accepted sg1 = Some False \<and> s_acceptedBy sg1 = Some ''u2''
    \<and> findById s_id ''s9'' (suggestions db') = Some sg1
    \<and> map l_action (auditLogs db') = [SUGGESTION_REJECTED]
    \<and> map l_meta (auditLogs db') =
         [[(''suggestionId'', MId ''s9''), (''agentId'', MId ''u2''), (''reason'', MString ''Not accurate'')]]
    \<and> tickets db' = [exampleTicket]"
proof -
  have f: "findById s_id ''s9'' (suggestions ((exampleDb (5 / 10))\<lparr>suggestions := [exampleSuggestion]\<rparr>))
             = Some exampleSuggestion"
    by (simp add: findById_def exampleSuggestion_def)
  from rejectSuggestion_effect [OF f, of "exampleEnv exampleStore" "''u2''" "''Not accurate''"]
  obtain sg1 db' where
    "rejectSuggestion (exampleEnv exampleStore) ((exampleDb (5 / 10))\<lparr>suggestions := [exampleSuggestion]\<rparr>)
        ''s9'' ''u2'' ''Not accurate'' = (Inr sg1, db')"
    "sg1 = exampleSuggestion\<lparr> s_accepted := Some False, s_acceptedBy := Some ''u2'',
                       s_acceptedAt := Some (now (exampleEnv exampleStore)) \<rparr>"
    "findById s_id ''s9'' (suggestions db') = Some sg1"
    "auditLogs db' = auditLogs ((exampleDb (5 / 10))\<lparr>suggestions := [exampleSuggestion]\<rparr>) @
               [newAuditLog (exampleEnv exampleStore) (s_ticketId exampleSuggestion)
                  (s_traceId exampleSuggestion) AgentActor SUGGESTION_REJECTED
                  [(''suggestionId'', MId ''s9''), (''agentId'', MId ''u2''),
                   (''reason'', MString ''Not accurate'')]]"
    "tickets db' = tickets ((exampleDb (5 / 10))\<lparr>suggestions := [exampleSuggestion]\<rparr>)"
    by blast
  then show ?thesis
    by (intro exI [of _ sg1] exI [of _ db']) (simp add: exampleDb_def newAuditLog_def)
qed

end
